theory Spec2Isabelle
  imports Complex_Main
begin

section \<open>Errors, outcomes and loops\<close>

text \<open>
  Every exception the modelled Python can raise is a constructor. The three
  \<open>TypeError\<close> constructors record where \<open>None\<close> met an operation that rejects it.
  An operation either raises (\<open>Inl\<close>, with the object's state at the raise) or
  returns (\<open>Inr\<close>, with the updated state).
\<close>

datatype py_error =
    TypeError_None_operand
  | TypeError_None_compare
  | TypeError_None_position
  | IndexOutOfBounds
  | ZeroDivisionError
  | OverflowError
  | AttributeError

type_synonym 's raises = "py_error \<times> 's + 's"

definition final_state :: "'s raises \<Rightarrow> 's" where
  "final_state r = (case r of Inl (e, s) \<Rightarrow> s | Inr s \<Rightarrow> s)"

text \<open>
  \<open>for i in ...: body\<close> over a list of indices; the first raise leaves the loop.
\<close>

fun for_each :: "(nat \<Rightarrow> 's \<Rightarrow> 's raises) \<Rightarrow> nat list \<Rightarrow> 's \<Rightarrow> 's raises" where
  "for_each body [] s = Inr s"
| "for_each body (i # is) s =
     (case body i s of Inl e \<Rightarrow> Inl e | Inr s' \<Rightarrow> for_each body is s')"

section \<open>Floats and machine integers\<close>

text \<open>
  The values of a Python float and of a numpy \<open>float64\<close>: IEEE 754 binary64. The two
  zeros are one value here; they differ only under division and sign tests, which the
  modelled code does not make.
\<close>

datatype double = Finite real | PosInf | NegInf | NaN

text \<open>The number of binary digits of a positive integer.\<close>

function bit_length :: "int \<Rightarrow> int" where
  "bit_length n = (if n \<le> 0 then 0 else 1 + bit_length (n div 2))"
  by pat_completeness auto
termination
  by (relation "measure nat") auto

declare bit_length.simps [simp del]

definition pow2 :: "int \<Rightarrow> real" where
  "pow2 e = (if 0 \<le> e then 2 ^ nat e else 1 / 2 ^ nat (- e))"

text \<open>The binary exponent \<open>e\<close> of a real \<open>x \<noteq> 0\<close>: \<open>2\<^sup>e \<le> \<bar>x\<bar> < 2\<^sup>e\<^sup>+\<^sup>1\<close>.\<close>

definition exponent :: "real \<Rightarrow> int" where
  "exponent x =
     (if 1 \<le> \<bar>x\<bar> then bit_length \<lfloor>\<bar>x\<bar>\<rfloor> - 1
      else (let j = bit_length \<lfloor>1 / \<bar>x\<bar>\<rfloor> - 1
            in if \<bar>x\<bar> * pow2 j = 1 then - j else - j - 1))"

text \<open>Rounding to the nearest integer, a tie to the even one.\<close>

definition round_half_even :: "real \<Rightarrow> int" where
  "round_half_even y =
     (let f = \<lfloor>y\<rfloor>; d = y - real_of_int f
      in if d < 1 / 2 then f else if 1 / 2 < d then f + 1 else if even f then f else f + 1)"

text \<open>
  Rounding of a real to binary64, to nearest with ties to even: 53 significant binary
  digits, the least exponent -1022 (below it the spacing stays \<open>2\<^sup>-\<^sup>1\<^sup>0\<^sup>7\<^sup>4\<close>), and
  an infinity when the rounded value reaches \<open>2\<^sup>1\<^sup>0\<^sup>2\<^sup>4\<close>, which takes an exponent
  of 1023 at least.
\<close>

definition round_finite :: "real \<Rightarrow> real" where
  "round_finite x =
     (if x = 0 then 0
      else (let q = pow2 (max (exponent x) (- 1022) - 52)
            in real_of_int (round_half_even (x / q)) * q))"

definition round_double :: "real \<Rightarrow> double" where
  "round_double x =
     (if x = 0 then Finite 0
      else if exponent x < 1023 then Finite (round_finite x)
      else if 2 ^ 1024 \<le> \<bar>round_finite x\<bar> then (if 0 < x then PosInf else NegInf)
      else Finite (round_finite x))"

text \<open>Sum and product of two floats. Adding zero changes no float.\<close>

fun fadd :: "double \<Rightarrow> double \<Rightarrow> double" where
  "fadd NaN y = NaN"
| "fadd x NaN = NaN"
| "fadd PosInf NegInf = NaN"
| "fadd NegInf PosInf = NaN"
| "fadd PosInf y = PosInf"
| "fadd x PosInf = PosInf"
| "fadd NegInf y = NegInf"
| "fadd x NegInf = NegInf"
| "fadd (Finite x) (Finite y) =
     (if y = 0 then Finite x else if x = 0 then Finite y else round_double (x + y))"

fun fmul :: "double \<Rightarrow> double \<Rightarrow> double" where
  "fmul NaN y = NaN"
| "fmul x NaN = NaN"
| "fmul (Finite x) (Finite y) = round_double (x * y)"
| "fmul (Finite x) PosInf = (if x = 0 then NaN else if 0 < x then PosInf else NegInf)"
| "fmul (Finite x) NegInf = (if x = 0 then NaN else if 0 < x then NegInf else PosInf)"
| "fmul PosInf (Finite y) = (if y = 0 then NaN else if 0 < y then PosInf else NegInf)"
| "fmul NegInf (Finite y) = (if y = 0 then NaN else if 0 < y then NegInf else PosInf)"
| "fmul PosInf PosInf = PosInf"
| "fmul PosInf NegInf = NegInf"
| "fmul NegInf PosInf = NegInf"
| "fmul NegInf NegInf = PosInf"

text \<open>
  The integers of the arrays are 64 bits wide (\<open>int64\<close>, the \<open>int\<close> of \<open>astype\<close> where
  a C \<open>long\<close> has 64 bits). Their difference wraps around; their conversion to
  \<open>float64\<close> rounds and never overflows.
\<close>

definition wrap64 :: "int \<Rightarrow> int" where
  "wrap64 z = (z + 2 ^ 63) mod 2 ^ 64 - 2 ^ 63"

definition double_of_int :: "int \<Rightarrow> double" where
  "double_of_int k = Finite (round_finite (real_of_int k))"

text \<open>Dropping the fraction of a real: Python's \<open>int(x)\<close> on a finite float.\<close>

definition trunc :: "real \<Rightarrow> int" where
  "trunc x = (if 0 \<le> x then \<lfloor>x\<rfloor> else \<lceil>x\<rceil>)"

text \<open>
  \<open>astype(int)\<close> on one \<open>float64\<close>: the C conversion, which drops the fraction. Where
  the result does not fit 64 bits, and on infinities and NaN, C leaves the result open;
  \<open>invalid\<close> is what the machine at hand gives there.
\<close>

definition astype_int :: "(double \<Rightarrow> int) \<Rightarrow> double \<Rightarrow> int" where
  "astype_int invalid d =
     (case d of
        Finite x \<Rightarrow> if - (2 ^ 63) \<le> trunc x \<and> trunc x < 2 ^ 63 then trunc x else invalid d
      | _ \<Rightarrow> invalid d)"

section \<open>Vectors (numpy arrays of one axis)\<close>

text \<open>
  Elementwise operations on arrays of equal length; the state invariant \<open>well_formed\<close>
  below keeps all arrays of a run at the dimensionality of the search space, where
  numpy's elementwise operations are exactly these. \<open>smul\<close> is a float times a float
  array, \<open>smul_int\<close> a float times an integer array (each integer converted first),
  \<open>vadd\<close> the sum of two float arrays, \<open>subtract\<close> is \<open>np.subtract\<close> of two integer
  arrays.
\<close>

definition smul :: "double \<Rightarrow> double list \<Rightarrow> double list" where
  "smul c v = map (fmul c) v"

definition smul_int :: "double \<Rightarrow> int list \<Rightarrow> double list" where
  "smul_int c a = map (\<lambda>x. fmul c (double_of_int x)) a"

definition vadd :: "double list \<Rightarrow> double list \<Rightarrow> double list" where
  "vadd u v = map2 fadd u v"

definition subtract :: "int list \<Rightarrow> int list \<Rightarrow> int list" where
  "subtract a b = map2 (\<lambda>x y. wrap64 (x - y)) a b"

section \<open>Search space\<close>

type_synonym 'v search_space = "(string \<times> 'v list) list"
type_synonym 'v hyperpara_dict = "(string \<times> 'v) list"

definition valid_pos :: "'v search_space \<Rightarrow> int list \<Rightarrow> bool" where
  "valid_pos space p = list_all2 (\<lambda>i d. 0 \<le> i \<and> i < int (length (snd d))) p space"

text \<open>
  Modelled from the spec: \<open>_limit_pos\<close> of the base class, which is not part of the
  sources at hand. Each component is clamped to \<open>[0, len(dimension.values) - 1]\<close>.
\<close>

definition limit_pos :: "'v search_space \<Rightarrow> int list \<Rightarrow> int list" where
  "limit_pos space p = map2 (\<lambda>i d. max 0 (min i (int (length (snd d)) - 1))) p space"

text \<open>
  Modelled from the spec: \<open>_pos_np2values_dict\<close> of the base class (the decoder of
  the Space Encoder), which is not part of the sources at hand. It maps a Position to
  the Parameter Assignment and fails with \<open>IndexOutOfBounds\<close> on an out-of-range
  component.
\<close>

definition pos_np2values_dict :: "'v search_space \<Rightarrow> int list \<Rightarrow> py_error + 'v hyperpara_dict" where
  "pos_np2values_dict space p =
     (if valid_pos space p then Inr (map2 (\<lambda>i d. (fst d, snd d ! nat i)) p space)
      else Inl IndexOutOfBounds)"

section \<open>The particle swarm optimizer\<close>

text \<open>
  What the optimizer is given and never changes: the search space, the counts, the
  evaluator \<open>_train_model\<close> (external: it trains and scores a model and returns score,
  training time and model), the two sources of randomness, each as the sequence of
  values its successive calls return: \<open>_pos_dict2np_array(_get_random_position())\<close>
  and \<open>rnd.random()\<close> (whose values are floats), and what the machine gives for a
  conversion of a float to an integer that C leaves open.
\<close>

record ('v, 'k) env =
  ml_search_dict :: "'v search_space"
  n_searches :: int
  n_jobs :: int
  n_particles :: int
  train_model :: "'v hyperpara_dict \<Rightarrow> real \<times> real \<times> 'k"
  get_random_position :: "nat \<Rightarrow> int list"
  rnd_random :: "nat \<Rightarrow> real"
  invalid_cast :: "double \<Rightarrow> int"

text \<open>
  \<open>class Particle\<close>. The attributes \<open>pos\<close>, \<open>velo\<close> and \<open>best_pos\<close> are assigned by
  \<open>_init_particles\<close> before any use; the other three stay \<open>None\<close> until the first
  evaluation. The personal best attributes carry the prefix \<open>p_\<close> to keep them apart
  from the optimizer's attributes of the same name.
\<close>

record 'k particle =
  pos :: "int list"
  velo :: "double list"
  p_best_pos :: "int list"
  p_best_score :: "real option"
  train_time :: "real option"
  sklearn_model :: "'k option"

text \<open>
  \<open>class ParticleSwarm_Optimizer\<close>: the attributes the search reads or writes, the
  number of calls made so far to each source of randomness, and two logs: every argument
  passed to \<open>_pos_np2values_dict\<close> and every argument passed to \<open>_train_model\<close>.
\<close>

record ('v, 'k) optimizer =
  p_list :: "'k particle list"
  best_score :: real
  best_pos :: "int list option"
  position_calls :: nat
  rnd_calls :: nat
  decoded :: "int list option list"
  trained :: "'v hyperpara_dict list"

text \<open>\<open>__init__\<close>: no particles yet, best score 0, best position \<open>None\<close>.\<close>

definition init_optimizer :: "('v, 'k) optimizer" where
  "init_optimizer =
     \<lparr>p_list = [], best_score = 0, best_pos = None, position_calls = 0, rnd_calls = 0,
      decoded = [], trained = []\<rparr>"

text \<open>\<open>_find_best_particle\<close>: the body of the loop for the particle at index \<open>i\<close>, and the loop.\<close>

definition find_best_particle_at :: "nat \<Rightarrow> ('v, 'k) optimizer \<Rightarrow> ('v, 'k) optimizer raises" where
  "find_best_particle_at i st =
     (let p = p_list st ! i in
      case p_best_score p of
        None \<Rightarrow> Inl (TypeError_None_compare, st)
      | Some sc \<Rightarrow>
          if sc > best_score st
          then Inr (st\<lparr>best_score := sc, best_pos := Some (p_best_pos p)\<rparr>)
          else Inr st)"

definition find_best_particle :: "('v, 'k) optimizer \<Rightarrow> ('v, 'k) optimizer raises" where
  "find_best_particle st = for_each find_best_particle_at [0..<length (p_list st)] st"

text \<open>
  \<open>_init_particles\<close>: particle \<open>i\<close> takes two random positions in turn, the first as
  its position and the second as its best position, and a zero velocity of the
  dimensionality of the search space.
\<close>

definition new_particle :: "('v, 'k) env \<Rightarrow> nat \<Rightarrow> nat \<Rightarrow> 'k particle" where
  "new_particle env c i =
     \<lparr>pos = get_random_position env (c + 2 * i),
      velo = replicate (length (ml_search_dict env)) (Finite 0),
      p_best_pos = get_random_position env (c + 2 * i + 1),
      p_best_score = None, train_time = None, sklearn_model = None\<rparr>"

definition init_particles :: "('v, 'k) env \<Rightarrow> ('v, 'k) optimizer \<Rightarrow> ('v, 'k) optimizer" where
  "init_particles env st =
     st\<lparr>p_list := map (new_particle env (position_calls st)) [0..<nat (n_particles env)],
        position_calls := position_calls st + 2 * nat (n_particles env)\<rparr>"

text \<open>
  \<open>Particle.move\<close>: the integer position is converted to floats, the velocity is added,
  and \<open>astype(int)\<close> converts the sum back.
\<close>

definition move :: "('v, 'k) env \<Rightarrow> 'k particle \<Rightarrow> 'k particle" where
  "move env p =
     p\<lparr>pos := map (astype_int (invalid_cast env)) (vadd (map double_of_int (pos p)) (velo p))\<rparr>"

text \<open>
  \<open>_move_particles\<close>, with the three coefficients as parameters; the source fixes them
  in \<open>move_particles\<close> below. Every product and every sum is a float operation, in the
  order of the source: \<open>(W * velo + (c1 * r1) * (best_pos - pos)) + (c2 * r2) * (best_pos - pos)\<close>.
  Both random numbers are drawn before \<open>np.subtract(self.best_pos, p.pos)\<close> is
  evaluated, which raises on \<open>None\<close>.
\<close>

definition move_particle_at ::
  "double \<Rightarrow> double \<Rightarrow> double \<Rightarrow> ('v, 'k) env \<Rightarrow> nat \<Rightarrow> ('v, 'k) optimizer \<Rightarrow> ('v, 'k) optimizer raises" where
  "move_particle_at W c1 c2 env i st =
     (let p = p_list st ! i;
          A = smul W (velo p);
          r1 = Finite (rnd_random env (rnd_calls st));
          B = smul_int (fmul c1 r1) (subtract (p_best_pos p) (pos p));
          r2 = Finite (rnd_random env (rnd_calls st + 1));
          st' = st\<lparr>rnd_calls := rnd_calls st + 2\<rparr>
      in case best_pos st of
           None \<Rightarrow> Inl (TypeError_None_operand, st')
         | Some gb \<Rightarrow>
             (let C = smul_int (fmul c2 r2) (subtract gb (pos p));
                  new_velocity = vadd (vadd A B) C
              in Inr (st'\<lparr>p_list := (p_list st)[i := move env (p\<lparr>velo := new_velocity\<rparr>)]\<rparr>)))"

definition move_particles_with ::
  "double \<Rightarrow> double \<Rightarrow> double \<Rightarrow> ('v, 'k) env \<Rightarrow> ('v, 'k) optimizer \<Rightarrow> ('v, 'k) optimizer raises" where
  "move_particles_with W c1 c2 env st =
     for_each (move_particle_at W c1 c2 env) [0..<length (p_list st)] st"

definition move_particles :: "('v, 'k) env \<Rightarrow> ('v, 'k) optimizer \<Rightarrow> ('v, 'k) optimizer raises" where
  "move_particles = move_particles_with (round_double 0.5) (round_double 0.8) (round_double 0.9)"

text \<open>\<open>_eval_particles\<close>: the body of the loop for the particle at index \<open>i\<close>, and the loop.\<close>

definition eval_particle_at :: "('v, 'k) env \<Rightarrow> nat \<Rightarrow> ('v, 'k) optimizer \<Rightarrow> ('v, 'k) optimizer raises" where
  "eval_particle_at env i st =
     (let p = p_list st ! i;
          pos' = limit_pos (ml_search_dict env) (pos p);
          st' = st\<lparr>decoded := decoded st @ [Some pos']\<rparr>
      in case pos_np2values_dict (ml_search_dict env) pos' of
           Inl e \<Rightarrow> Inl (e, st')
         | Inr hyperpara_dict \<Rightarrow>
             (case train_model env hyperpara_dict of
                (score, time, model) \<Rightarrow>
                  Inr (st'\<lparr>p_list := (p_list st)[i := p\<lparr>p_best_score := Some score,
                                                         train_time := Some time,
                                                         sklearn_model := Some model\<rparr>],
                           trained := trained st @ [hyperpara_dict]\<rparr>)))"

definition eval_particles :: "('v, 'k) env \<Rightarrow> ('v, 'k) optimizer \<Rightarrow> ('v, 'k) optimizer raises" where
  "eval_particles env st = for_each (eval_particle_at env) [0..<length (p_list st)] st"

text \<open>One pass of the loop of \<open>_start_particle_swarm_optimization\<close>, and \<open>n\<close> passes.\<close>

definition step_with ::
  "double \<Rightarrow> double \<Rightarrow> double \<Rightarrow> ('v, 'k) env \<Rightarrow> ('v, 'k) optimizer \<Rightarrow> ('v, 'k) optimizer raises" where
  "step_with W c1 c2 env st =
     (case eval_particles env st of
        Inl e \<Rightarrow> Inl e
      | Inr st1 \<Rightarrow>
          (case find_best_particle st1 of
             Inl e \<Rightarrow> Inl e
           | Inr st2 \<Rightarrow> move_particles_with W c1 c2 env st2))"

fun steps_with ::
  "double \<Rightarrow> double \<Rightarrow> double \<Rightarrow> ('v, 'k) env \<Rightarrow> nat \<Rightarrow> ('v, 'k) optimizer \<Rightarrow> ('v, 'k) optimizer raises" where
  "steps_with W c1 c2 env 0 st = Inr st"
| "steps_with W c1 c2 env (Suc n) st =
     (case step_with W c1 c2 env st of
        Inl e \<Rightarrow> Inl e
      | Inr st' \<Rightarrow> steps_with W c1 c2 env n st')"

definition steps :: "('v, 'k) env \<Rightarrow> nat \<Rightarrow> ('v, 'k) optimizer \<Rightarrow> ('v, 'k) optimizer raises" where
  "steps = steps_with (round_double 0.5) (round_double 0.8) (round_double 0.9)"

text \<open>
  \<open>n_steps = int(self.n_searches/self.n_jobs)\<close>: the true division of two Python
  integers gives the float nearest to the quotient and raises where that is no finite
  float; \<open>int\<close> drops the fraction; \<open>range\<close> of a negative number is empty.
\<close>

definition n_steps :: "('v, 'k) env \<Rightarrow> py_error + nat" where
  "n_steps env =
     (if n_jobs env = 0 then Inl ZeroDivisionError
      else (case round_double (real_of_int (n_searches env) / real_of_int (n_jobs env)) of
              Finite q \<Rightarrow> Inr (nat (trunc q))
            | _ \<Rightarrow> Inl OverflowError))"

text \<open>
  \<open>_start_particle_swarm_optimization\<close>. The value returned is
  \<open>(sklearn_model, score_best, hyperpara_dict_best, train_time)\<close>. After the loop
  (\<open>finish\<close>) the decoder is handed \<open>self.best_pos\<close> as it is; on \<open>None\<close>, which is
  not a Position, the decoder is taken to raise.
\<close>

type_synonym ('v, 'k) found = "'k \<times> real \<times> 'v hyperpara_dict \<times> real"

definition finish ::
  "('v, 'k) env \<Rightarrow> ('v, 'k) optimizer \<Rightarrow> py_error \<times> ('v, 'k) optimizer + ('v, 'k) found \<times> ('v, 'k) optimizer" where
  "finish env st =
     (let st' = st\<lparr>decoded := decoded st @ [best_pos st]\<rparr> in
      case best_pos st of
        None \<Rightarrow> Inl (TypeError_None_position, st')
      | Some bp \<Rightarrow>
          (case pos_np2values_dict (ml_search_dict env) bp of
             Inl e \<Rightarrow> Inl (e, st')
           | Inr hyperpara_dict_best \<Rightarrow>
               (case train_model env hyperpara_dict_best of
                  (score_best, time, model) \<Rightarrow>
                    Inr ((model, score_best, hyperpara_dict_best, time),
                         st'\<lparr>trained := trained st @ [hyperpara_dict_best]\<rparr>))))"

definition start_particle_swarm_optimization_with ::
  "double \<Rightarrow> double \<Rightarrow> double \<Rightarrow> ('v, 'k) env \<Rightarrow> ('v, 'k) optimizer \<Rightarrow>
   py_error \<times> ('v, 'k) optimizer + ('v, 'k) found \<times> ('v, 'k) optimizer" where
  "start_particle_swarm_optimization_with W c1 c2 env st =
     (case n_steps env of
        Inl e \<Rightarrow> Inl (e, st)
      | Inr n \<Rightarrow>
          (case steps_with W c1 c2 env n (init_particles env st) of
             Inl e \<Rightarrow> Inl e
           | Inr st' \<Rightarrow> finish env st'))"

definition start_particle_swarm_optimization ::
  "('v, 'k) env \<Rightarrow> ('v, 'k) optimizer \<Rightarrow>
   py_error \<times> ('v, 'k) optimizer + ('v, 'k) found \<times> ('v, 'k) optimizer" where
  "start_particle_swarm_optimization =
     start_particle_swarm_optimization_with (round_double 0.5) (round_double 0.8) (round_double 0.9)"

text \<open>The optimizer as the run left it, whether the run returned or raised.\<close>

definition state_after ::
  "py_error \<times> ('v, 'k) optimizer + ('v, 'k) found \<times> ('v, 'k) optimizer \<Rightarrow> ('v, 'k) optimizer" where
  "state_after r = (case r of Inl (e, s) \<Rightarrow> s | Inr (x, s) \<Rightarrow> s)"

section \<open>Invariants of a run\<close>

text \<open>
  Every array of every particle has the dimensionality of the search space, every best
  position is a valid Position, and so is the optimizer's best position once it is set.
\<close>

definition well_formed :: "('v, 'k) env \<Rightarrow> ('v, 'k) optimizer \<Rightarrow> bool" where
  "well_formed env st =
     (list_all (\<lambda>p. length (pos p) = length (ml_search_dict env)
                  \<and> length (velo p) = length (ml_search_dict env)
                  \<and> valid_pos (ml_search_dict env) (p_best_pos p)) (p_list st)
      \<and> (case best_pos st of None \<Rightarrow> True | Some gb \<Rightarrow> valid_pos (ml_search_dict env) gb))"

text \<open>
  The velocity that \<open>_move_particles\<close> assigns to a particle, from the two random
  numbers drawn for it and the optimizer's best position.
\<close>

definition new_velocity ::
  "double \<Rightarrow> double \<Rightarrow> double \<Rightarrow> real \<Rightarrow> real \<Rightarrow> int list \<Rightarrow> 'k particle \<Rightarrow> double list" where
  "new_velocity W c1 c2 r1 r2 gb p =
     vadd (vadd (smul W (velo p))
                (smul_int (fmul c1 (Finite r1)) (subtract (p_best_pos p) (pos p))))
          (smul_int (fmul c2 (Finite r2)) (subtract gb (pos p)))"

text \<open>The Positions among the logged arguments of the decoder, in the order of the calls.\<close>

definition decoded_positions :: "('v, 'k) optimizer \<Rightarrow> int list list" where
  "decoded_positions st = concat (map (\<lambda>x. case x of None \<Rightarrow> [] | Some p \<Rightarrow> [p]) (decoded st))"

text \<open>
  Every Position in the log of decoded arguments is valid, and clamping leaves it as it
  is; the arguments of the evaluator are the decoded Positions, call by call.
\<close>

definition decoded_ok :: "('v, 'k) env \<Rightarrow> ('v, 'k) optimizer \<Rightarrow> bool" where
  "decoded_ok env st =
     (list_all (\<lambda>p. valid_pos (ml_search_dict env) p \<and> limit_pos (ml_search_dict env) p = p)
        (decoded_positions st)
      \<and> map Inr (trained st) = map (pos_np2values_dict (ml_search_dict env)) (decoded_positions st))"

section \<open>Hyperactive.search\<close>

text \<open>
  The four attributes of an optimizer object that \<open>Hyperactive.search\<close> reads after a
  search. Their types are left open.
\<close>

record ('p, 'm, 'q, 's) optimizer_object =
  opt_results_params :: 'p
  opt_results_models :: 'm
  opt_pos_list :: 'q
  opt_score_list :: 's

text \<open>
  \<open>class Hyperactive\<close>: the attributes that \<open>search\<close> reads or assigns. \<open>None\<close> stands
  for an attribute that has not been assigned; reading it raises \<open>AttributeError\<close>.
  \<open>optimizer_attr\<close> is the attribute \<^verbatim>\<open>_optimizer_\<close>. The time stamps are left out.
\<close>

record ('p, 'm, 'q, 's) hyperactive =
  optimizer_attr :: "('p, 'm, 'q, 's) optimizer_object option"
  results_params :: "'p option"
  results_models :: "'m option"
  pos_list :: "'q option"
  score_list :: "'s option"

text \<open>\<open>__init__\<close> assigns none of them.\<close>

definition hyperactive_init :: "('p, 'm, 'q, 's) hyperactive" where
  "hyperactive_init =
     \<lparr>optimizer_attr = None, results_params = None, results_models = None, pos_list = None,
      score_list = None\<rparr>"

text \<open>
  The Hyperactive object together with the optimizer objects that live in remote ray
  workers, each as its search left it.
\<close>

record ('p, 'm, 'q, 's) world =
  self :: "('p, 'm, 'q, 's) hyperactive"
  remote_opts :: "('p, 'm, 'q, 's) optimizer_object list"

text \<open>
  \<open>Hyperactive.search\<close>, from the test of the flag \<^verbatim>\<open>ray_\<close> on. \<open>ray_flag\<close> is that
  flag, the outcome of the \<open>try\<close> block (ray was imported and is initialized); \<open>local_search\<close> is the optimizer
  object built and searched in this process, \<open>remote_search job\<close> the one built and
  searched by remote job \<open>job\<close>. The setup calls before the \<open>try\<close> block, which
  belong to other modules, are taken to return.
\<close>

definition search ::
  "bool \<Rightarrow> int \<Rightarrow> ('p, 'm, 'q, 's) optimizer_object \<Rightarrow> (nat \<Rightarrow> ('p, 'm, 'q, 's) optimizer_object) \<Rightarrow>
   ('p, 'm, 'q, 's) world \<Rightarrow> ('p, 'm, 'q, 's) world raises" where
  "search ray_flag jobs local_search remote_search w =
     (let w1 = (if ray_flag
                then w\<lparr>remote_opts := map remote_search [0..<nat jobs]\<rparr>
                else w\<lparr>self := (self w)\<lparr>optimizer_attr := Some local_search\<rparr>\<rparr>)
      in case optimizer_attr (self w1) of
           None \<Rightarrow> Inl (AttributeError, w1)
         | Some opt \<Rightarrow>
             Inr (w1\<lparr>self := (self w1)\<lparr>results_params := Some (opt_results_params opt),
                                        results_models := Some (opt_results_models opt),
                                        pos_list := Some (opt_pos_list opt),
                                        score_list := Some (opt_score_list opt)\<rparr>\<rparr>))"

section \<open>Example runs\<close>

text \<open>
  One dimension \<open>x\<close> with the values 0 to 4, one particle that starts at index 0 with
  best position 4, every random number one half. The score is 5 at \<open>x = 0\<close> and 3
  elsewhere. Two steps.
\<close>

definition env_drop :: "(int, unit) env" where
  "env_drop =
     \<lparr>ml_search_dict = [(''x'', [0, 1, 2, 3, 4])], n_searches = 2, n_jobs = 1, n_particles = 1,
      train_model = (\<lambda>h. (if h = [(''x'', 0)] then 5 else 3, 0, ())),
      get_random_position = (\<lambda>k. if k = 0 then [0] else [4]),
      rnd_random = (\<lambda>k. 1 / 2), invalid_cast = (\<lambda>d. - (2 ^ 63))\<rparr>"


text \<open>The same space, two particles, the score \<open>-(x - 2)\<^sup>2\<close>, which is never positive.\<close>

definition env_nonpos :: "(int, unit) env" where
  "env_nonpos =
     \<lparr>ml_search_dict = [(''x'', [0, 1, 2, 3, 4])], n_searches = 3, n_jobs = 1, n_particles = 2,
      train_model = (\<lambda>h. (case h of [(n, x)] \<Rightarrow> - ((real_of_int x - 2) * (real_of_int x - 2)) | _ \<Rightarrow> 0, 0, ())),
      get_random_position = (\<lambda>k. [int (k mod 5)]),
      rnd_random = (\<lambda>k. 1 / 2), invalid_cast = (\<lambda>d. - (2 ^ 63))\<rparr>"


text \<open>The first example run after \<open>_init_particles\<close>, and after the evaluation and the
  search for the best particle of its first step.\<close>

definition st_drop0 :: "(int, unit) optimizer" where
  "st_drop0 = init_particles env_drop init_optimizer"

definition st_drop1 :: "(int, unit) optimizer" where
  "st_drop1 = final_state (find_best_particle (final_state (eval_particles env_drop st_drop0)))"

text \<open>A particle of two dimensions with a velocity that is not whole.\<close>

definition p_example :: "unit particle" where
  "p_example =
     \<lparr>pos = [0, 0], velo = [round_double (- 0.7), round_double 2.9], p_best_pos = [0, 0],
      p_best_score = None, train_time = None, sklearn_model = None\<rparr>"

text \<open>The third example run after the evaluation and the search for the best particle of
  its first step: no score is above 0.\<close>

definition st_nonpos1 :: "(int, unit) optimizer" where
  "st_nonpos1 =
     final_state (find_best_particle
       (final_state (eval_particles env_nonpos (init_particles env_nonpos init_optimizer))))"

text \<open>
  One dimension with the values 0 to 5, one particle that starts at index 5 with best
  position 0, score 1 everywhere; the first random number is 0.75, the others are 0.
  The state is the one after the evaluation and the search for the best particle of the
  first step.
\<close>

definition env_round :: "(int, unit) env" where
  "env_round =
     \<lparr>ml_search_dict = [(''x'', [0, 1, 2, 3, 4, 5])], n_searches = 1, n_jobs = 1, n_particles = 1,
      train_model = (\<lambda>h. (1, 0, ())),
      get_random_position = (\<lambda>k. if k = 0 then [5] else [0]),
      rnd_random = (\<lambda>k. if k = 0 then 3 / 4 else 0), invalid_cast = (\<lambda>d. - (2 ^ 63))\<rparr>"

definition st_round1 :: "(int, unit) optimizer" where
  "st_round1 =
     final_state (find_best_particle
       (final_state (eval_particles env_round (init_particles env_round init_optimizer))))"

text \<open>A particle at position 3 whose velocity is the greatest float below 1.\<close>

definition p_round :: "unit particle" where
  "p_round =
     \<lparr>pos = [3], velo = [Finite (1 - 1 / 2 ^ 53)], p_best_pos = [3], p_best_score = None,
      train_time = None, sklearn_model = None\<rparr>"

text \<open>
  One dimension of \<open>2\<^sup>5\<^sup>3 + 2\<close> values, one particle at the last index, score 1
  everywhere, one search.
\<close>

definition env_huge :: "(unit, unit) env" where
  "env_huge =
     \<lparr>ml_search_dict = [(''x'', replicate (2 ^ 53 + 2) ())], n_searches = 1, n_jobs = 1,
      n_particles = 1,
      train_model = (\<lambda>h. (1, 0, ())),
      get_random_position = (\<lambda>k. [2 ^ 53 + 1]),
      rnd_random = (\<lambda>k. 1 / 2), invalid_cast = (\<lambda>d. - (2 ^ 63))\<rparr>"




section \<open>Rounding\<close>

lemma pow2_powi: "pow2 e = 2 powi e"
  by (simp add: pow2_def power_int_def inverse_eq_divide power_one_over)

lemma pow2_pos [simp]: "0 < pow2 e"
  by (simp add: pow2_def)

lemma pow2_neq_0 [simp]: "pow2 e \<noteq> 0"
  by (simp add: pow2_def)

lemma pow2_minus: "pow2 (- i) = 1 / pow2 i"
  by (simp add: pow2_powi power_int_minus_divide)

lemma eq_pow2_minus: "a * pow2 i = 1 \<Longrightarrow> a = pow2 (- i)"
  by (simp add: pow2_minus eq_divide_eq)

lemma less_pow2_minus: "a * pow2 i < 1 \<Longrightarrow> a < pow2 (- i)"
  using pow2_pos [of i] by (simp add: pow2_minus less_divide_eq)

lemma pow2_minus_less: "1 < a * pow2 i \<Longrightarrow> pow2 (- i) < a"
  using pow2_pos [of i] by (simp add: pow2_minus divide_less_eq)


lemma pow2_less_iff [simp]: "pow2 a < pow2 b \<longleftrightarrow> a < b"
  unfolding pow2_powi
  by (metis linorder_not_less one_less_numeral_iff order_le_less power_int_increasing
      power_int_strict_increasing semiring_norm(76))

lemma pow2_le_iff [simp]: "pow2 a \<le> pow2 b \<longleftrightarrow> a \<le> b"
  by (metis linorder_not_less pow2_less_iff)

lemma pow2_nonneg: "0 \<le> e \<Longrightarrow> pow2 e = 2 ^ nat e"
  by (simp add: pow2_def)

lemma pow2_neg: "e \<le> 0 \<Longrightarrow> pow2 e = 1 / 2 ^ nat (- e)"
  by (simp add: pow2_def)

lemma bit_length_bounds:
  "0 < n \<Longrightarrow> 1 \<le> bit_length n \<and> 2 ^ nat (bit_length n - 1) \<le> n \<and> n < 2 ^ nat (bit_length n)"
proof (induction n rule: bit_length.induct)
  case (1 n)
  show ?case
  proof (cases "n = 1")
    case True
    then show ?thesis by (simp add: bit_length.simps [of 1] bit_length.simps [of 0])
  next
    case False
    with "1.prems" have half: "0 < n div 2" by simp
    with "1.IH" "1.prems" have ih: "1 \<le> bit_length (n div 2)"
      "2 ^ nat (bit_length (n div 2) - 1) \<le> n div 2" "n div 2 < 2 ^ nat (bit_length (n div 2))"
      by simp_all
    have bl: "bit_length n = 1 + bit_length (n div 2)"
      using "1.prems" by (simp add: bit_length.simps [of n])
    have "nat (bit_length n - 1) = Suc (nat (bit_length (n div 2) - 1))"
      using ih(1) bl by simp
    moreover have "nat (bit_length n) = Suc (nat (bit_length (n div 2)))"
      using ih(1) bl by simp
    ultimately show ?thesis using ih bl by simp linarith
  qed
qed

lemma exponent_bounds:
  assumes "x \<noteq> 0"
  shows "pow2 (exponent x) \<le> \<bar>x\<bar> \<and> \<bar>x\<bar> < pow2 (exponent x + 1)"
proof (cases "1 \<le> \<bar>x\<bar>")
  case True
  let ?n = "\<lfloor>\<bar>x\<bar>\<rfloor>"
  from True have n: "0 < ?n" by simp
  note b = bit_length_bounds [OF n]
  have e: "exponent x = bit_length ?n - 1" using True by (simp add: exponent_def)
  from b have "real_of_int (2 ^ nat (bit_length ?n - 1)) \<le> real_of_int ?n"
    using of_int_le_iff by blast
  also have "\<dots> \<le> \<bar>x\<bar>" by simp
  finally have lo: "pow2 (exponent x) \<le> \<bar>x\<bar>" using b by (simp add: e pow2_nonneg)
  from b have "?n + 1 \<le> 2 ^ nat (bit_length ?n)" by simp
  then have "real_of_int (?n + 1) \<le> real_of_int (2 ^ nat (bit_length ?n))"
    using of_int_le_iff by blast
  then have "real_of_int ?n + 1 \<le> 2 ^ nat (bit_length ?n)" by simp
  moreover have "\<bar>x\<bar> < real_of_int ?n + 1" by linarith
  ultimately have "\<bar>x\<bar> < 2 ^ nat (bit_length ?n)" by linarith
  moreover have "pow2 (exponent x + 1) = 2 ^ nat (bit_length ?n)"
    using b by (simp add: e pow2_nonneg)
  ultimately have "\<bar>x\<bar> < pow2 (exponent x + 1)" by simp
  with lo show ?thesis by simp
next
  case False
  with assms have small: "0 < \<bar>x\<bar>" "\<bar>x\<bar> < 1" by simp_all
  let ?m = "\<lfloor>1 / \<bar>x\<bar>\<rfloor>"
  define k where "k = bit_length ?m - 1"
  from small have "1 < 1 / \<bar>x\<bar>" by simp
  then have m: "0 < ?m" by simp
  note b = bit_length_bounds [OF m]
  from b have k0: "0 \<le> k" by (simp add: k_def)
  from b have "real_of_int (2 ^ nat k) \<le> real_of_int ?m"
    unfolding k_def using of_int_le_iff by blast
  also have "\<dots> \<le> 1 / \<bar>x\<bar>" by simp
  finally have "pow2 k \<le> 1 / \<bar>x\<bar>" using k0 by (simp add: pow2_nonneg)
  with small have up: "\<bar>x\<bar> * pow2 k \<le> 1" by (simp add: field_simps)
  from b have "?m + 1 \<le> 2 ^ nat (bit_length ?m)" by simp
  then have "real_of_int (?m + 1) \<le> real_of_int (2 ^ nat (bit_length ?m))"
    using of_int_le_iff by blast
  then have "real_of_int ?m + 1 \<le> 2 ^ nat (bit_length ?m)" by simp
  moreover have "1 / \<bar>x\<bar> < real_of_int ?m + 1" by linarith
  ultimately have "1 / \<bar>x\<bar> < 2 ^ nat (bit_length ?m)" by linarith
  moreover have "pow2 (k + 1) = 2 ^ nat (bit_length ?m)"
    using b by (simp add: pow2_nonneg k_def)
  ultimately have "1 / \<bar>x\<bar> < pow2 (k + 1)" by simp
  with small have lo: "1 < \<bar>x\<bar> * pow2 (k + 1)" by (simp add: field_simps)
  show ?thesis
  proof (cases "\<bar>x\<bar> * pow2 k = 1")
    case True
    then have e: "exponent x = - k" using False by (simp add: exponent_def Let_def k_def)
    from True have "\<bar>x\<bar> = pow2 (- k)" by (rule eq_pow2_minus)
    then show ?thesis unfolding e by simp
  next
    case ne: False
    then have e: "exponent x = - (k + 1)" using False by (simp add: exponent_def Let_def k_def)
    from lo have "pow2 (- (k + 1)) < \<bar>x\<bar>" by (rule pow2_minus_less)
    moreover from up ne have "\<bar>x\<bar> * pow2 k < 1" by simp
    then have "\<bar>x\<bar> < pow2 (- k)" by (rule less_pow2_minus)
    moreover have "- (k + 1) + 1 = - k" by simp
    ultimately show ?thesis unfolding e by (metis less_imp_le)
  qed
qed

lemma round_half_even_of_int [simp]: "round_half_even (real_of_int m) = m"
  by (simp add: round_half_even_def)




lemma pow2_ge_0 [simp]: "0 \<le> pow2 e"
  by (simp add: pow2_def)


lemma exponent_less:
  assumes "x \<noteq> 0" and "\<bar>x\<bar> < pow2 b"
  shows "exponent x < b"
proof -
  from exponent_bounds [OF assms(1)] assms(2) have "pow2 (exponent x) < pow2 b" by linarith
  then show ?thesis by simp
qed

lemma exponent_ge:
  assumes "pow2 b \<le> \<bar>x\<bar>"
  shows "b \<le> exponent x"
proof -
  have "x \<noteq> 0"
  proof
    assume "x = 0"
    with assms have "pow2 b \<le> 0" by simp
    with pow2_pos [of b] show False by linarith
  qed
  from exponent_bounds [OF this] assms have "pow2 b < pow2 (exponent x + 1)" by linarith
  then show ?thesis by simp
qed

lemma round_finite_of_int:
  assumes "\<bar>k\<bar> < 2 ^ 53"
  shows "round_finite (real_of_int k) = real_of_int k"
proof (cases "k = 0")
  case True
  then show ?thesis by (simp add: round_finite_def)
next
  case False
  let ?x = "real_of_int k"
  define t where "t = max (exponent ?x) (- 1022) - 52"
  from False have x0: "?x \<noteq> 0" by simp
  from assms have "\<bar>?x\<bar> < 2 ^ 53"
    by (metis of_int_abs of_int_less_iff of_int_numeral of_int_power)
  then have "\<bar>?x\<bar> < pow2 53" by (simp add: pow2_def)
  from exponent_less [OF x0 this] have t0: "t \<le> 0" by (simp add: t_def)
  then have q: "pow2 t = 1 / 2 ^ nat (- t)" by (rule pow2_neg)
  have "?x / pow2 t = real_of_int (k * 2 ^ nat (- t))" by (simp add: q)
  then have "round_half_even (?x / pow2 t) = k * 2 ^ nat (- t)"
    by (simp only: round_half_even_of_int)
  then have "real_of_int (round_half_even (?x / pow2 t)) * pow2 t = ?x" by (simp add: q)
  with x0 show ?thesis by (simp add: round_finite_def Let_def t_def)
qed

lemma double_of_int_exact: "\<bar>k\<bar> < 2 ^ 53 \<Longrightarrow> double_of_int k = Finite (real_of_int k)"
  by (simp add: double_of_int_def round_finite_of_int)

lemma trunc_of_int [simp]: "trunc (real_of_int k) = k"
  by (simp add: trunc_def)

lemma trunc_abs_le: "\<bar>real_of_int (trunc x)\<bar> \<le> \<bar>x\<bar>"
  unfolding trunc_def by (auto; linarith)

lemma trunc_close: "\<bar>x - real_of_int (trunc x)\<bar> < 1"
  unfolding trunc_def by (auto; linarith)



section \<open>Loops and outcomes\<close>

lemma for_each_append:
  "for_each body (xs @ ys) s =
     (case for_each body xs s of Inl e \<Rightarrow> Inl e | Inr s' \<Rightarrow> for_each body ys s')"
  by (induction xs arbitrary: s) (auto split: sum.splits)

lemma for_each_invariant:
  assumes "I s" and "\<And>i s. i \<in> set js \<Longrightarrow> I s \<Longrightarrow> I (final_state (body i s))"
  shows "I (final_state (for_each body js s))"
  using assms
proof (induction js arbitrary: s)
  case Nil
  then show ?case by (simp add: final_state_def)
next
  case (Cons j js)
  show ?case
  proof (cases "body j s")
    case (Inl e)
    with Cons.prems(2)[of j s] Cons.prems(1) show ?thesis by (simp add: final_state_def)
  next
    case (Inr s')
    with Cons.prems(2)[of j s] Cons.prems(1) have "I s'" by (simp add: final_state_def)
    with Cons.IH[of s'] Cons.prems(2) Inr show ?thesis by simp
  qed
qed

lemma final_state_simps [simp]:
  "final_state (Inl (e, s)) = s" "final_state (Inr s) = s"
  by (simp_all add: final_state_def)

lemma limit_pos_valid:
  assumes "length p = length space" and "\<forall>d \<in> set space. snd d \<noteq> []"
  shows "valid_pos space (limit_pos space p)"
  using assms
  by (auto simp: valid_pos_def limit_pos_def list_all2_conv_all_nth)

lemma limit_pos_id: "valid_pos space p \<Longrightarrow> limit_pos space p = p"
  by (auto simp: valid_pos_def limit_pos_def list_all2_conv_all_nth intro!: nth_equalityI)

lemma valid_pos_length: "valid_pos space p \<Longrightarrow> length p = length space"
  by (simp add: valid_pos_def list_all2_lengthD)

section \<open>The three loops, one particle at a time\<close>

lemma list_all_update: "list_all P xs \<Longrightarrow> P y \<Longrightarrow> list_all P (xs[i := y])"
  by (auto simp: list_all_iff dest: set_update_subset_insert [THEN subsetD])

lemma map_update_same: "f y = f (xs ! i) \<Longrightarrow> map f (xs[i := y]) = map f xs"
proof (rule nth_equalityI)
  show "length (map f (xs[i := y])) = length (map f xs)" by simp
next
  fix j
  assume "f y = f (xs ! i)" and "j < length (map f (xs[i := y]))"
  then show "map f (xs[i := y]) ! j = map f xs ! j"
    by (cases "j = i") simp_all
qed


lemma eval_particle_at_cases:
  obtains (raise) e where
      "eval_particle_at env i st =
         Inl (e, st\<lparr>decoded := decoded st @ [Some (limit_pos (ml_search_dict env) (pos (p_list st ! i)))]\<rparr>)"
      "pos_np2values_dict (ml_search_dict env) (limit_pos (ml_search_dict env) (pos (p_list st ! i))) = Inl e"
  | (return) h sc t m where
      "pos_np2values_dict (ml_search_dict env) (limit_pos (ml_search_dict env) (pos (p_list st ! i))) = Inr h"
      "train_model env h = (sc, t, m)"
      "eval_particle_at env i st =
         Inr (st\<lparr>decoded := decoded st @ [Some (limit_pos (ml_search_dict env) (pos (p_list st ! i)))],
                 p_list := (p_list st)[i := (p_list st ! i)\<lparr>p_best_score := Some sc, train_time := Some t,
                                                          sklearn_model := Some m\<rparr>],
                 trained := trained st @ [h]\<rparr>)"
proof (cases "pos_np2values_dict (ml_search_dict env) (limit_pos (ml_search_dict env) (pos (p_list st ! i)))")
  case (Inl e)
  then show ?thesis using raise by (simp add: eval_particle_at_def Let_def)
next
  case (Inr h)
  obtain sc t m where "train_model env h = (sc, t, m)" by (cases "train_model env h") auto
  with Inr show ?thesis using return by (simp add: eval_particle_at_def Let_def)
qed

lemma find_best_particle_at_cases:
  obtains (raise) "p_best_score (p_list st ! i) = None"
      "find_best_particle_at i st = Inl (TypeError_None_compare, st)"
  | (better) sc where "p_best_score (p_list st ! i) = Some sc" "best_score st < sc"
      "find_best_particle_at i st =
         Inr (st\<lparr>best_score := sc, best_pos := Some (p_best_pos (p_list st ! i))\<rparr>)"
  | (keep) sc where "p_best_score (p_list st ! i) = Some sc" "sc \<le> best_score st"
      "find_best_particle_at i st = Inr st"
proof (cases "p_best_score (p_list st ! i)")
  case None
  then show ?thesis using raise by (simp add: find_best_particle_at_def)
next
  case (Some sc)
  show ?thesis
  proof (cases "best_score st < sc")
    case True
    with Some show ?thesis using better by (simp add: find_best_particle_at_def)
  next
    case False
    with Some show ?thesis using keep by (simp add: find_best_particle_at_def)
  qed
qed

lemma move_particle_at_cases:
  obtains (raise) "best_pos st = None"
      "move_particle_at W c1 c2 env i st = Inl (TypeError_None_operand, st\<lparr>rnd_calls := rnd_calls st + 2\<rparr>)"
  | (return) gb where "best_pos st = Some gb"
      "move_particle_at W c1 c2 env i st =
         Inr (st\<lparr>rnd_calls := rnd_calls st + 2,
                 p_list := (p_list st)[i := move env ((p_list st ! i)\<lparr>velo :=
                    new_velocity W c1 c2 (rnd_random env (rnd_calls st))
                      (rnd_random env (rnd_calls st + 1)) gb (p_list st ! i)\<rparr>)]\<rparr>)"
  by (cases "best_pos st") (auto simp: move_particle_at_def new_velocity_def Let_def)




section \<open>Invariant rules\<close>

lemma eval_particle_at_length:
  "length (p_list (final_state (eval_particle_at env i s))) = length (p_list s)"
  by (rule eval_particle_at_cases [where env = env and i = i and st = s]) simp_all

lemma find_best_particle_at_p_list:
  "p_list (final_state (find_best_particle_at i s)) = p_list s"
  by (rule find_best_particle_at_cases [where i = i and st = s]) simp_all

lemma move_particle_at_length:
  "length (p_list (final_state (move_particle_at W c1 c2 env i s))) = length (p_list s)"
  by (rule move_particle_at_cases [where W = W and ?c1.0 = c1 and ?c2.0 = c2 and env = env and i = i and st = s])
     simp_all

lemma eval_particles_invariant:
  assumes "I st"
    and "\<And>i s. i < length (p_list s) \<Longrightarrow> I s \<Longrightarrow> I (final_state (eval_particle_at env i s))"
  shows "I (final_state (eval_particles env st))"
proof -
  have "I (final_state (eval_particles env st))
        \<and> length (p_list (final_state (eval_particles env st))) = length (p_list st)"
    unfolding eval_particles_def
    by (rule for_each_invariant [where I = "\<lambda>s. I s \<and> length (p_list s) = length (p_list st)"])
       (simp_all add: assms eval_particle_at_length)
  then show ?thesis ..
qed

lemma find_best_particle_invariant:
  assumes "I st"
    and "\<And>i s. i < length (p_list s) \<Longrightarrow> I s \<Longrightarrow> I (final_state (find_best_particle_at i s))"
  shows "I (final_state (find_best_particle st))"
proof -
  have "I (final_state (find_best_particle st))
        \<and> length (p_list (final_state (find_best_particle st))) = length (p_list st)"
    unfolding find_best_particle_def
    by (rule for_each_invariant [where I = "\<lambda>s. I s \<and> length (p_list s) = length (p_list st)"])
       (simp_all add: assms find_best_particle_at_p_list)
  then show ?thesis ..
qed

lemma move_particles_invariant:
  assumes "I st"
    and "\<And>i s. i < length (p_list s) \<Longrightarrow> I s \<Longrightarrow> I (final_state (move_particle_at W c1 c2 env i s))"
  shows "I (final_state (move_particles_with W c1 c2 env st))"
proof -
  have "I (final_state (move_particles_with W c1 c2 env st))
        \<and> length (p_list (final_state (move_particles_with W c1 c2 env st))) = length (p_list st)"
    unfolding move_particles_with_def
    by (rule for_each_invariant [where I = "\<lambda>s. I s \<and> length (p_list s) = length (p_list st)"])
       (simp_all add: assms move_particle_at_length)
  then show ?thesis ..
qed

lemma step_with_invariant:
  assumes "I st"
    and "\<And>s. I s \<Longrightarrow> I (final_state (eval_particles env s))"
    and "\<And>s. I s \<Longrightarrow> I (final_state (find_best_particle s))"
    and "\<And>s. I s \<Longrightarrow> I (final_state (move_particles_with W c1 c2 env s))"
  shows "I (final_state (step_with W c1 c2 env st))"
proof (cases "eval_particles env st")
  case (Inl e)
  with assms(2) [OF assms(1)] show ?thesis by (cases e) (simp add: step_with_def)
next
  case st1: (Inr s1)
  with assms(2) [OF assms(1)] have I1: "I s1" by simp
  show ?thesis
  proof (cases "find_best_particle s1")
    case (Inl e)
    with assms(3) [OF I1] st1 show ?thesis by (cases e) (simp add: step_with_def)
  next
    case (Inr s2)
    with assms(3) [OF I1] have "I s2" by simp
    with assms(4) [of s2] st1 Inr show ?thesis by (simp add: step_with_def)
  qed
qed

lemma steps_with_invariant:
  assumes "I st"
    and "\<And>s. I s \<Longrightarrow> I (final_state (eval_particles env s))"
    and "\<And>s. I s \<Longrightarrow> I (final_state (find_best_particle s))"
    and "\<And>s. I s \<Longrightarrow> I (final_state (move_particles_with W c1 c2 env s))"
  shows "I (final_state (steps_with W c1 c2 env n st))"
  using assms(1)
proof (induction n arbitrary: st)
  case 0
  then show ?case by simp
next
  case (Suc n)
  have step: "I (final_state (step_with W c1 c2 env st))"
    by (rule step_with_invariant [OF Suc.prems assms(2-4)])
  show ?case
  proof (cases "step_with W c1 c2 env st")
    case (Inl e)
    with step show ?thesis by (cases e) simp
  next
    case (Inr s')
    with step Suc.IH [of s'] show ?thesis by simp
  qed
qed






section \<open>Runs, steps and calls\<close>

text \<open>No positive score\<close>

lemma seen_nonpos_steps:
  assumes init: "best_pos st = None \<and> best_score st = 0
       \<and> list_all (\<lambda>p. case p_best_score p of None \<Rightarrow> True | Some sc \<Rightarrow> sc \<le> 0) (p_list st)"
  shows "list_all (\<lambda>h. fst (train_model env h) \<le> 0) (trained (final_state (steps_with W c1 c2 env n st)))
       \<longrightarrow> best_pos (final_state (steps_with W c1 c2 env n st)) = None
         \<and> best_score (final_state (steps_with W c1 c2 env n st)) = 0
         \<and> list_all (\<lambda>p. case p_best_score p of None \<Rightarrow> True | Some sc \<Rightarrow> sc \<le> 0)
              (p_list (final_state (steps_with W c1 c2 env n st)))"
proof -
  let ?I = "\<lambda>s :: ('a, 'b) optimizer. list_all (\<lambda>h. fst (train_model env h) \<le> 0) (trained s)
       \<longrightarrow> best_pos s = None \<and> best_score s = 0
         \<and> list_all (\<lambda>p. case p_best_score p of None \<Rightarrow> True | Some sc \<Rightarrow> sc \<le> 0) (p_list s)"
  have eval: "?I (final_state (eval_particle_at env i s))" if "?I s" for i s
  proof (rule eval_particle_at_cases [where env = env and i = i and st = s], goal_cases)
    case (1 e)
    with that show ?case by simp
  next
    case (2 h sc t m)
    with that show ?case by (auto simp: list_all_update)
  qed
  have find: "?I (final_state (find_best_particle_at i s))" if "?I s" "i < length (p_list s)" for i s
  proof (rule find_best_particle_at_cases [where i = i and st = s], goal_cases)
    case 1
    with that show ?case by simp
  next
    case (2 sc)
    show ?case
    proof (cases "list_all (\<lambda>h. fst (train_model env h) \<le> 0) (trained s)")
      case True
      with that have q: "best_score s = 0"
        "list_all (\<lambda>p. case p_best_score p of None \<Rightarrow> True | Some sc \<Rightarrow> sc \<le> 0) (p_list s)"
        by simp_all
      from q(2) that(2) have "case p_best_score (p_list s ! i) of None \<Rightarrow> True | Some sc \<Rightarrow> sc \<le> 0"
        by (simp add: list_all_length)
      with 2 q(1) show ?thesis by simp
    next
      case False
      with 2 show ?thesis by simp
    qed
  next
    case (3 sc)
    with that show ?case by simp
  qed
  have move: "?I (final_state (move_particle_at W c1 c2 env i s))" if "?I s" for i s
    by (rule move_particle_at_cases [where W = W and ?c1.0 = c1 and ?c2.0 = c2 and env = env and i = i and st = s])
       (use that in simp_all)
  have "?I (final_state (steps_with W c1 c2 env n st))"
  proof (rule steps_with_invariant [where I = ?I], goal_cases)
    case 1
    show ?case using init by simp
  next
    case (2 s)
    then show ?case by (rule eval_particles_invariant [where I = ?I]) (rule eval)
  next
    case (3 s)
    then show ?case by (rule find_best_particle_invariant [where I = ?I]) (rule find)
  next
    case (4 s)
    then show ?case by (rule move_particles_invariant [where I = ?I]) (rule move)
  qed
  then show ?thesis .
qed

lemma init_particles_simps [simp]:
  "best_pos (init_particles env st) = best_pos st"
  "best_score (init_particles env st) = best_score st"
  "decoded (init_particles env st) = decoded st"
  "trained (init_particles env st) = trained st"
  "rnd_calls (init_particles env st) = rnd_calls st"
  "length (p_list (init_particles env st)) = nat (n_particles env)"
  by (simp_all add: init_particles_def)

lemma init_particles_unscored:
  "list_all (\<lambda>p. p_best_score p = None) (p_list (init_particles env st))"
  by (simp add: init_particles_def list_all_iff new_particle_def)

lemma finish_None:
  "best_pos st = None \<Longrightarrow> finish env st = Inl (TypeError_None_position, st\<lparr>decoded := decoded st @ [None]\<rparr>)"
  by (simp add: finish_def)

lemma state_after_simps [simp]:
  "state_after (Inl (e, s)) = s" "state_after (Inr (x, s)) = s"
  by (simp_all add: state_after_def)

lemma finish_trained:
  "trained (state_after (finish env st)) = trained st
   \<or> (\<exists>h bp. best_pos st = Some bp \<and> trained (state_after (finish env st)) = trained st @ [h])"
  by (cases "best_pos st") (auto simp: finish_def Let_def split: sum.splits prod.splits)

lemma finish_best:
  "best_pos (state_after (finish env st)) = best_pos st
   \<and> best_score (state_after (finish env st)) = best_score st"
  by (cases "best_pos st") (auto simp: finish_def Let_def split: sum.splits prod.splits)

lemma seen_nonpos_run:
  assumes nonpos: "list_all (\<lambda>h. fst (train_model env h) \<le> 0)
      (trained (state_after (start_particle_swarm_optimization_with W c1 c2 env init_optimizer)))"
  shows "best_pos (state_after (start_particle_swarm_optimization_with W c1 c2 env init_optimizer)) = None
       \<and> best_score (state_after (start_particle_swarm_optimization_with W c1 c2 env init_optimizer)) = 0"
proof (cases "n_steps env")
  case (Inl e)
  then show ?thesis by (simp add: start_particle_swarm_optimization_with_def init_optimizer_def)
next
  case (Inr n)
  let ?st = "init_particles env (init_optimizer :: ('a, 'b) optimizer)"
  have "list_all (\<lambda>p. case p_best_score p of None \<Rightarrow> True | Some sc \<Rightarrow> sc \<le> 0) (p_list ?st)"
    using init_particles_unscored [of env init_optimizer] by (simp add: list_all_iff)
  then have start: "best_pos ?st = None \<and> best_score ?st = 0
       \<and> list_all (\<lambda>p. case p_best_score p of None \<Rightarrow> True | Some sc \<Rightarrow> sc \<le> 0) (p_list ?st)"
    by (simp add: init_optimizer_def)
  note inv = seen_nonpos_steps [OF start, of env W c1 c2 n]
  show ?thesis
  proof (cases "steps_with W c1 c2 env n ?st")
    case (Inl e)
    with inv Inr nonpos show ?thesis
      by (cases e) (simp add: start_particle_swarm_optimization_with_def)
  next
    case st': (Inr s)
    with Inr have run: "state_after (start_particle_swarm_optimization_with W c1 c2 env init_optimizer)
        = state_after (finish env s)"
      by (simp add: start_particle_swarm_optimization_with_def)
    with nonpos finish_trained [of env s] have "list_all (\<lambda>h. fst (train_model env h) \<le> 0) (trained s)"
      by auto
    with inv st' have "best_pos s = None" "best_score s = 0" by simp_all
    with run finish_best [of env s] show ?thesis by simp
  qed
qed








section \<open>Arrays keep their length\<close>

text \<open>Vectors\<close>

lemma length_smul [simp]: "length (smul c v) = length v"
  by (simp add: smul_def)

lemma length_smul_int [simp]: "length (smul_int c a) = length a"
  by (simp add: smul_int_def)

lemma length_vadd [simp]: "length (vadd u v) = min (length u) (length v)"
  by (simp add: vadd_def)

lemma length_subtract [simp]: "length (subtract a b) = min (length a) (length b)"
  by (simp add: subtract_def)

lemma nth_smul [simp]: "j < length v \<Longrightarrow> smul c v ! j = fmul c (v ! j)"
  by (simp add: smul_def)

lemma nth_smul_int [simp]: "j < length a \<Longrightarrow> smul_int c a ! j = fmul c (double_of_int (a ! j))"
  by (simp add: smul_int_def)

lemma nth_vadd [simp]: "j < length u \<Longrightarrow> j < length v \<Longrightarrow> vadd u v ! j = fadd (u ! j) (v ! j)"
  by (simp add: vadd_def)

lemma nth_subtract [simp]:
  "j < length a \<Longrightarrow> j < length b \<Longrightarrow> subtract a b ! j = wrap64 (a ! j - b ! j)"
  by (simp add: subtract_def)

lemma length_new_velocity [simp]:
  "length (new_velocity W c1 c2 r1 r2 gb p)
     = min (min (length (velo p)) (min (length (p_best_pos p)) (length (pos p))))
           (min (length gb) (length (pos p)))"
  by (simp add: new_velocity_def)

lemma length_move [simp]: "length (pos (move env p)) = min (length (pos p)) (length (velo p))"
  by (simp add: move_def)

lemma move_simps [simp]:
  "velo (move env p) = velo p" "p_best_pos (move env p) = p_best_pos p"
  "p_best_score (move env p) = p_best_score p"
  by (simp_all add: move_def)

lemma nth_move:
  "j < length (pos p) \<Longrightarrow> j < length (velo p) \<Longrightarrow>
     pos (move env p) ! j
       = astype_int (invalid_cast env) (fadd (double_of_int (pos p ! j)) (velo p ! j))"
  by (simp add: move_def)

text \<open>Well-formed states\<close>

lemma well_formed_steps:
  assumes dims: "\<forall>d \<in> set (ml_search_dict env). snd d \<noteq> []"
    and init: "well_formed env st \<and> decoded_ok env st"
  shows "well_formed env (final_state (steps_with W c1 c2 env n st))
       \<and> decoded_ok env (final_state (steps_with W c1 c2 env n st))"
proof -
  let ?I = "\<lambda>s :: ('a, 'b) optimizer. well_formed env s \<and> decoded_ok env s"
  have eval: "?I (final_state (eval_particle_at env i s))" if "?I s" "i < length (p_list s)" for i s
  proof -
    from that have len: "length (pos (p_list s ! i)) = length (ml_search_dict env)"
      and vlen: "length (velo (p_list s ! i)) = length (ml_search_dict env)"
      and bp: "valid_pos (ml_search_dict env) (p_best_pos (p_list s ! i))"
      by (simp_all add: well_formed_def list_all_length)
    have v: "valid_pos (ml_search_dict env) (limit_pos (ml_search_dict env) (pos (p_list s ! i)))"
      by (rule limit_pos_valid [OF len dims])
    then have idem: "limit_pos (ml_search_dict env) (limit_pos (ml_search_dict env) (pos (p_list s ! i)))
        = limit_pos (ml_search_dict env) (pos (p_list s ! i))"
      by (rule limit_pos_id)
    show ?thesis
    proof (rule eval_particle_at_cases [where env = env and i = i and st = s], goal_cases)
      case (1 e)
      with v show ?case by (simp add: pos_np2values_dict_def)
    next
      case (2 h sc t m)
      with that v idem len vlen bp show ?case
        by (simp add: well_formed_def decoded_ok_def decoded_positions_def list_all_update)
    qed
  qed
  have find: "?I (final_state (find_best_particle_at i s))" if "?I s" "i < length (p_list s)" for i s
  proof -
    from that have bp: "valid_pos (ml_search_dict env) (p_best_pos (p_list s ! i))"
      by (simp add: well_formed_def list_all_length)
    show ?thesis
      by (rule find_best_particle_at_cases [where i = i and st = s])
         (use that bp in \<open>simp_all add: well_formed_def decoded_ok_def decoded_positions_def\<close>)
  qed
  have move: "?I (final_state (move_particle_at W c1 c2 env i s))" if "?I s" "i < length (p_list s)" for i s
  proof -
    from that have len: "length (pos (p_list s ! i)) = length (ml_search_dict env)"
      and vlen: "length (velo (p_list s ! i)) = length (ml_search_dict env)"
      and bp: "valid_pos (ml_search_dict env) (p_best_pos (p_list s ! i))"
      by (simp_all add: well_formed_def list_all_length)
    note blen = valid_pos_length [OF bp]
    show ?thesis
    proof (rule move_particle_at_cases [where W = W and ?c1.0 = c1 and ?c2.0 = c2 and env = env and i = i and st = s],
        goal_cases)
      case 1
      with that show ?case by (simp add: well_formed_def decoded_ok_def decoded_positions_def)
    next
      case (2 gb)
      with that have "valid_pos (ml_search_dict env) gb" by (simp add: well_formed_def)
      then have "length gb = length (ml_search_dict env)" by (rule valid_pos_length)
      with 2 that len vlen bp blen show ?case
        by (simp add: well_formed_def decoded_ok_def decoded_positions_def list_all_update)
    qed
  qed
  have "?I (final_state (steps_with W c1 c2 env n st))"
  proof (rule steps_with_invariant [where I = ?I], goal_cases)
    case 1
    show ?case by (rule init)
  next
    case (2 s)
    then show ?case by (rule eval_particles_invariant [where I = ?I]) (rule eval)
  next
    case (3 s)
    then show ?case by (rule find_best_particle_invariant [where I = ?I]) (rule find)
  next
    case (4 s)
    then show ?case by (rule move_particles_invariant [where I = ?I]) (rule move)
  qed
  then show ?thesis .
qed

lemma well_formed_init_particles:
  assumes "\<forall>k. valid_pos (ml_search_dict env) (get_random_position env k)"
  shows "well_formed env (init_particles env init_optimizer) \<and> decoded_ok env (init_particles env init_optimizer)"
  using assms
  by (simp add: well_formed_def decoded_ok_def decoded_positions_def init_particles_def init_optimizer_def
      list_all_iff new_particle_def valid_pos_length)

lemma well_formed_finish:
  assumes "well_formed env st \<and> decoded_ok env st"
  shows "decoded_ok env (state_after (finish env st))"
proof (cases "best_pos st")
  case None
  with assms show ?thesis by (simp add: finish_None decoded_ok_def decoded_positions_def)
next
  case (Some bp)
  with assms have "valid_pos (ml_search_dict env) bp" by (simp add: well_formed_def)
  with Some assms show ?thesis
    by (simp add: finish_def decoded_ok_def decoded_positions_def limit_pos_id pos_np2values_dict_def Let_def
        split: prod.splits)
qed

lemma well_formed_run:
  assumes dims: "\<forall>d \<in> set (ml_search_dict env). snd d \<noteq> []"
    and rand: "\<forall>k. valid_pos (ml_search_dict env) (get_random_position env k)"
  shows "decoded_ok env (state_after (start_particle_swarm_optimization_with W c1 c2 env init_optimizer))"
proof (cases "n_steps env")
  case (Inl e)
  then show ?thesis
    by (simp add: start_particle_swarm_optimization_with_def decoded_ok_def decoded_positions_def
        init_optimizer_def)
next
  case (Inr n)
  note inv = well_formed_steps [OF dims well_formed_init_particles [OF rand], of W c1 c2 n]
  show ?thesis
  proof (cases "steps_with W c1 c2 env n (init_particles env init_optimizer)")
    case (Inl e)
    with inv Inr show ?thesis
      by (cases e) (simp add: start_particle_swarm_optimization_with_def)
  next
    case st': (Inr s)
    with inv well_formed_finish [of env s] Inr show ?thesis
      by (simp add: start_particle_swarm_optimization_with_def)
  qed
qed

lemma valid_pos_dims:
  assumes "valid_pos space p"
  shows "\<forall>d \<in> set space. snd d \<noteq> []"
proof
  fix d assume "d \<in> set space"
  then obtain j where "j < length space" "space ! j = d" by (auto simp: in_set_conv_nth)
  with assms have "0 \<le> p ! j \<and> p ! j < int (length (snd d))"
    by (auto simp: valid_pos_def list_all2_conv_all_nth)
  then show "snd d \<noteq> []" by auto
qed

text \<open>The loop of the move, particle by particle\<close>

lemma move_particles_prefix:
  assumes gb: "best_pos st = Some gb" and k: "k \<le> length (p_list st)"
  shows "\<exists>st'. for_each (move_particle_at W c1 c2 env) [0..<k] st = Inr st'
     \<and> best_pos st' = Some gb
     \<and> rnd_calls st' = rnd_calls st + 2 * k
     \<and> length (p_list st') = length (p_list st)
     \<and> (\<forall>i < length (p_list st). p_list st' ! i =
          (if i < k
           then move env ((p_list st ! i)\<lparr>velo :=
                  new_velocity W c1 c2 (rnd_random env (rnd_calls st + 2 * i))
                    (rnd_random env (rnd_calls st + 2 * i + 1)) gb (p_list st ! i)\<rparr>)
           else p_list st ! i))"
  using k
proof (induction k)
  case 0
  with gb show ?case by simp
next
  case (Suc k)
  then obtain s where s: "for_each (move_particle_at W c1 c2 env) [0..<k] st = Inr s"
    and sgb: "best_pos s = Some gb" and calls: "rnd_calls s = rnd_calls st + 2 * k"
    and len: "length (p_list s) = length (p_list st)"
    and nth: "\<forall>i < length (p_list st). p_list s ! i =
          (if i < k
           then move env ((p_list st ! i)\<lparr>velo :=
                  new_velocity W c1 c2 (rnd_random env (rnd_calls st + 2 * i))
                    (rnd_random env (rnd_calls st + 2 * i + 1)) gb (p_list st ! i)\<rparr>)
           else p_list st ! i)"
    by auto
  from Suc.prems nth have same: "p_list s ! k = p_list st ! k" by simp
  have "for_each (move_particle_at W c1 c2 env) [0..<Suc k] st = move_particle_at W c1 c2 env k s"
    using s by (simp add: for_each_append split: sum.splits)
  also have "\<dots> = Inr (s\<lparr>rnd_calls := rnd_calls s + 2,
                 p_list := (p_list s)[k := move env ((p_list s ! k)\<lparr>velo :=
                    new_velocity W c1 c2 (rnd_random env (rnd_calls s))
                      (rnd_random env (rnd_calls s + 1)) gb (p_list s ! k)\<rparr>)]\<rparr>)"
    by (rule move_particle_at_cases [where W = W and ?c1.0 = c1 and ?c2.0 = c2 and env = env and i = k and st = s])
       (use sgb in simp_all)
  finally show ?case
    using sgb calls len nth same Suc.prems
    by (auto simp: nth_list_update less_Suc_eq)
qed

lemma move_particles_closed:
  assumes gb: "best_pos st = Some gb"
  shows "\<exists>st'. move_particles_with W c1 c2 env st = Inr st'
     \<and> rnd_calls st' = rnd_calls st + 2 * length (p_list st)
     \<and> length (p_list st') = length (p_list st)
     \<and> (\<forall>i < length (p_list st). p_list st' ! i =
           move env ((p_list st ! i)\<lparr>velo :=
                  new_velocity W c1 c2 (rnd_random env (rnd_calls st + 2 * i))
                    (rnd_random env (rnd_calls st + 2 * i + 1)) gb (p_list st ! i)\<rparr>))"
proof -
  from move_particles_prefix [OF gb order_refl, of W c1 c2 env]
  obtain st' where a: "for_each (move_particle_at W c1 c2 env) [0..<length (p_list st)] st = Inr st'"
    and b: "rnd_calls st' = rnd_calls st + 2 * length (p_list st)"
    and c: "length (p_list st') = length (p_list st)"
    and d: "\<forall>i < length (p_list st). p_list st' ! i =
          (if i < length (p_list st)
           then move env ((p_list st ! i)\<lparr>velo :=
                  new_velocity W c1 c2 (rnd_random env (rnd_calls st + 2 * i))
                    (rnd_random env (rnd_calls st + 2 * i + 1)) gb (p_list st ! i)\<rparr>)
           else p_list st ! i)"
    by blast
  from d have "\<forall>i < length (p_list st). p_list st' ! i =
           move env ((p_list st ! i)\<lparr>velo :=
                  new_velocity W c1 c2 (rnd_random env (rnd_calls st + 2 * i))
                    (rnd_random env (rnd_calls st + 2 * i + 1)) gb (p_list st ! i)\<rparr>)"
    by simp
  with a b c show ?thesis unfolding move_particles_with_def by blast
qed

text \<open>No pull toward a best position\<close>

lemma fadd_zero_right [simp]: "fadd x (Finite 0) = x"
  by (cases x) simp_all

lemma round_double_0 [simp]: "round_double 0 = Finite 0"
  unfolding round_double_def by simp

lemma fmul_zero_left [simp]: "fmul (Finite 0) (Finite y) = Finite 0"
  by simp

lemma fmul_zero_right [simp]: "fmul (Finite x) (Finite 0) = Finite 0"
  by simp

lemma fmul_zero_int [simp]: "fmul (Finite 0) (double_of_int k) = Finite 0"
  by (simp add: double_of_int_def)

lemma inertia_velo:
  assumes "length (velo p) = d" and "length (p_best_pos p) = d" and "length (pos p) = d"
    and "length gb = d"
  shows "new_velocity W (Finite 0) (Finite 0) r1 r2 gb p = smul W (velo p)"
  unfolding new_velocity_def using assms by (intro nth_equalityI) simp_all

lemma double_of_int_exact_le:
  assumes "\<bar>k\<bar> \<le> 2 ^ 53"
  shows "double_of_int k = Finite (real_of_int k)"
proof -
  have p: "double_of_int 9007199254740992 = Finite 9007199254740992" by code_simp
  have m: "double_of_int (- 9007199254740992) = Finite (- 9007199254740992)" by code_simp
  from assms consider "\<bar>k\<bar> < 2 ^ 53" | "k = 9007199254740992" | "k = - 9007199254740992"
    by fastforce
  then show ?thesis
  proof cases
    case 1
    then show ?thesis by (rule double_of_int_exact)
  next
    case 2
    with p show ?thesis by simp
  next
    case 3
    with m show ?thesis by simp
  qed
qed

lemma astype_int_of_int:
  assumes "\<bar>k\<bar> \<le> 2 ^ 53"
  shows "astype_int invalid (Finite (real_of_int k)) = k"
proof -
  from assms have "- (2 ^ 63) \<le> k" and "k < 2 ^ 63" by simp_all
  then show ?thesis by (simp add: astype_int_def)
qed

lemma move_at_rest:
  assumes "length (pos p) = d" and "velo p = replicate d (Finite 0)"
    and "list_all (\<lambda>i. \<bar>i\<bar> \<le> 2 ^ 53) (pos p)"
  shows "move env p = p"
proof -
  have "map (astype_int (invalid_cast env)) (vadd (map double_of_int (pos p)) (velo p)) = pos p"
  proof (rule nth_equalityI)
    show "length (map (astype_int (invalid_cast env)) (vadd (map double_of_int (pos p)) (velo p)))
        = length (pos p)"
      using assms by simp
  next
    fix j
    assume "j < length (map (astype_int (invalid_cast env)) (vadd (map double_of_int (pos p)) (velo p)))"
    with assms have j: "j < d" by simp
    with assms have small: "\<bar>pos p ! j\<bar> \<le> 2 ^ 53" by (simp add: list_all_length)
    from j assms show "map (astype_int (invalid_cast env)) (vadd (map double_of_int (pos p)) (velo p)) ! j
        = pos p ! j"
      by (simp add: double_of_int_exact_le [OF small] astype_int_of_int [OF small])
  qed
  then show ?thesis by (simp add: move_def)
qed

lemma inertia_steps:
  assumes init: "well_formed env st
      \<and> list_all (\<lambda>p. velo p = replicate (length (ml_search_dict env)) (Finite 0)) (p_list st)"
    and small: "list_all (\<lambda>p. list_all (\<lambda>i. \<bar>i\<bar> \<le> 2 ^ 53) (pos p)) (p_list st)"
  shows "map pos (p_list (final_state (steps_with (Finite w) (Finite 0) (Finite 0) env n st)))
           = map pos (p_list st)
       \<and> list_all (\<lambda>p. velo p = replicate (length (ml_search_dict env)) (Finite 0))
            (p_list (final_state (steps_with (Finite w) (Finite 0) (Finite 0) env n st)))"
proof -
  let ?d = "length (ml_search_dict env)"
  let ?I = "\<lambda>s :: ('a, 'b) optimizer. well_formed env s \<and> map pos (p_list s) = map pos (p_list st)
      \<and> list_all (\<lambda>p. velo p = replicate ?d (Finite 0)) (p_list s)"
  have eval: "?I (final_state (eval_particle_at env i s))" if "?I s" "i < length (p_list s)" for i s
  proof -
    from that have facts: "length (pos (p_list s ! i)) = ?d" "length (velo (p_list s ! i)) = ?d"
      "valid_pos (ml_search_dict env) (p_best_pos (p_list s ! i))"
      "velo (p_list s ! i) = replicate ?d (Finite 0)"
      by (simp_all add: well_formed_def list_all_length)
    show ?thesis
      by (rule eval_particle_at_cases [where env = env and i = i and st = s])
         (use that facts in \<open>simp_all add: well_formed_def list_all_update map_update_same\<close>)
  qed
  have find: "?I (final_state (find_best_particle_at i s))" if "?I s" "i < length (p_list s)" for i s
  proof -
    from that have bp: "valid_pos (ml_search_dict env) (p_best_pos (p_list s ! i))"
      by (simp add: well_formed_def list_all_length)
    show ?thesis
      by (rule find_best_particle_at_cases [where i = i and st = s])
         (use that bp in \<open>simp_all add: well_formed_def\<close>)
  qed
  have move: "?I (final_state (move_particle_at (Finite w) (Finite 0) (Finite 0) env i s))"
    if "?I s" "i < length (p_list s)" for i s
  proof (rule move_particle_at_cases [where W = "Finite w" and ?c1.0 = "Finite 0" and ?c2.0 = "Finite 0"
        and env = env and i = i and st = s], goal_cases)
    case 1
    with that show ?case by (simp add: well_formed_def)
  next
    case (2 gb)
    from that have len: "length (pos (p_list s ! i)) = ?d"
      and vlen: "length (velo (p_list s ! i)) = ?d"
      and bp: "valid_pos (ml_search_dict env) (p_best_pos (p_list s ! i))"
      and v0: "velo (p_list s ! i) = replicate ?d (Finite 0)"
      by (simp_all add: well_formed_def list_all_length)
    from that have "length (p_list s) = length (p_list st)"
      by (metis length_map)
    with that have "pos (p_list s ! i) = pos (p_list st ! i)" and "i < length (p_list st)"
      by (metis nth_map, simp)
    with small have bound: "list_all (\<lambda>i. \<bar>i\<bar> \<le> 2 ^ 53) (pos (p_list s ! i))"
      by (simp add: list_all_length)
    from 2 that have "valid_pos (ml_search_dict env) gb" by (simp add: well_formed_def)
    then have glen: "length gb = ?d" by (rule valid_pos_length)
    have "new_velocity (Finite w) (Finite 0) (Finite 0) (rnd_random env (rnd_calls s))
            (rnd_random env (rnd_calls s + 1)) gb (p_list s ! i)
          = smul (Finite w) (velo (p_list s ! i))"
      using vlen valid_pos_length [OF bp] len glen by (rule inertia_velo)
    also have "\<dots> = replicate ?d (Finite 0)" by (simp add: v0 smul_def)
    finally have "move_particle_at (Finite w) (Finite 0) (Finite 0) env i s = Inr (s\<lparr>rnd_calls := rnd_calls s + 2,
        p_list := (p_list s)[i := move env ((p_list s ! i)\<lparr>velo := replicate ?d (Finite 0)\<rparr>)]\<rparr>)"
      using 2 by simp
    moreover have "move env ((p_list s ! i)\<lparr>velo := replicate ?d (Finite 0)\<rparr>) = p_list s ! i"
      using move_at_rest [of "(p_list s ! i)\<lparr>velo := replicate ?d (Finite 0)\<rparr>" ?d env] len
        v0 [symmetric] bound
      by simp
    ultimately show ?case using that by (simp add: well_formed_def)
  qed
  have "?I (final_state (steps_with (Finite w) (Finite 0) (Finite 0) env n st))"
  proof (rule steps_with_invariant [where I = ?I], goal_cases)
    case 1
    show ?case using init by simp
  next
    case (2 s)
    then show ?case by (rule eval_particles_invariant [where I = ?I]) (rule eval)
  next
    case (3 s)
    then show ?case by (rule find_best_particle_invariant [where I = ?I]) (rule find)
  next
    case (4 s)
    then show ?case by (rule move_particles_invariant [where I = ?I]) (rule move)
  qed
  then show ?thesis by simp
qed










section \<open>Logs of a step, and sizes\<close>


lemma valid_pos_small:
  assumes "valid_pos space p" and "\<forall>d \<in> set space. length (snd d) \<le> 2 ^ 53 + 1"
  shows "list_all (\<lambda>i. \<bar>i\<bar> \<le> 2 ^ 53) p"
  unfolding list_all_length
proof (intro allI impI)
  fix j assume j: "j < length p"
  with assms(1) have len: "j < length space" and r: "0 \<le> p ! j" "p ! j < int (length (snd (space ! j)))"
    by (auto simp: valid_pos_def list_all2_conv_all_nth)
  from len assms(2) have "length (snd (space ! j)) \<le> 2 ^ 53 + 1" by simp
  then have "int (length (snd (space ! j))) \<le> int (2 ^ 53 + 1)" by (simp only: of_nat_le_iff)
  then have "int (length (snd (space ! j))) \<le> 2 ^ 53 + 1" by simp
  with r show "\<bar>p ! j\<bar> \<le> 2 ^ 53" by simp
qed

lemma huge_init: "p_list (init_particles env_huge init_optimizer)
    = [\<lparr>pos = [2 ^ 53 + 1], velo = [Finite 0], p_best_pos = [2 ^ 53 + 1], p_best_score = None,
        train_time = None, sklearn_model = None\<rparr>]"
  by (simp add: init_particles_def env_huge_def init_optimizer_def new_particle_def)


section \<open>Properties of the particle swarm search\<close>

text \<open>
  C1. In the step, a particle's personal best (best-seen Position and score) is updated
  only if the new score improves on the recorded one. The code does otherwise: in the
  example run the particle scores 5 at its first position \<open>[0]\<close>, moves to \<open>[3]\<close>,
  scores 3 there, and its recorded best score drops from 5 to 3; its best position is
  still the random position \<open>[4]\<close> it was given at the start, where it has never been.
\<close>

theorem personal_best_overwritten:
  "map pos (p_list st_drop0) = [[0]]
   \<and> map p_best_pos (p_list st_drop0) = [[4]]
   \<and> map p_best_score (p_list (final_state (steps env_drop 1 st_drop0))) = [Some 5]
   \<and> map pos (p_list (final_state (steps env_drop 1 st_drop0))) = [[3]]
   \<and> map p_best_score (p_list (final_state (steps env_drop 2 st_drop0))) = [Some 3]
   \<and> map p_best_pos (p_list (final_state (steps env_drop 2 st_drop0))) = [[4]]"
  by code_simp

text \<open>
  C2, as stated: in every move step each particle's new velocity equals
  \<open>w*v + c1*r1*(personal_best - pos) + c2*r2*(global_best - pos)\<close>. It fails in two
  ways. In the third example run no score is above 0, so the optimizer's best position
  is still \<open>None\<close> when the first move step starts: the step raises after the two draws
  for the first particle and replaces no velocity. In the fourth example (position 5,
  velocity 0, personal and global best 0, \<open>r1 = 0.75\<close>, \<open>r2 = 0\<close>) the formula over the
  reals gives the velocity \<open>-3\<close> and the position 2, while the floats of the code give
  \<open>-3 - 2\<^sup>-\<^sup>5\<^sup>1\<close> and the position 1.
\<close>

theorem move_raises_or_rounds:
  "best_pos st_nonpos1 = None
   \<and> move_particles env_nonpos st_nonpos1
       = Inl (TypeError_None_operand, st_nonpos1\<lparr>rnd_calls := 2\<rparr>)
   \<and> map velo (p_list (final_state (move_particles env_nonpos st_nonpos1)))
       = map velo (p_list st_nonpos1)
   \<and> map (\<lambda>p. (pos p, velo p, p_best_pos p)) (p_list st_round1) = [([5], [Finite 0], [0])]
   \<and> best_pos st_round1 = Some [0]
   \<and> map (\<lambda>p. (pos p, velo p)) (p_list (final_state (move_particles env_round st_round1)))
       = [([1], [Finite (- 3 - 1 / 2 ^ 51)])]
   \<and> 0.5 * 0 + 0.8 * 0.75 * real_of_int (0 - 5) + 0.9 * 0 * real_of_int (0 - 5) = (- 3 :: real)
   \<and> trunc (real_of_int 5 + (- 3)) = 2"
  by code_simp

text \<open>
  C2, amended: a move step that starts with the optimizer's best position set, in a
  state whose arrays have the dimensionality of the search space, returns, draws two
  random numbers for every particle, and gives particle \<open>i\<close> the velocity whose every
  component is the float \<open>(w*v + (c1*r1)*(personal_best - pos)) + (c2*r2)*(global_best - pos)\<close>:
  each product and each sum is rounded to the nearest float, the differences are those
  of 64-bit integers, converted to floats, \<open>w\<close>, \<open>c1\<close>, \<open>c2\<close> are the floats nearest
  0.5, 0.8 and 0.9, and \<open>r1\<close>, \<open>r2\<close> are the draws \<open>2i\<close> and \<open>2i + 1\<close> of the step. The
  velocity is stored before the particle moves: the new position is computed from it.
\<close>

theorem velocity_update:
  assumes "well_formed env st" and "best_pos st = Some gb"
  shows "\<exists>st'. move_particles env st = Inr st'
     \<and> rnd_calls st' = rnd_calls st + 2 * length (p_list st)
     \<and> length (p_list st') = length (p_list st)
     \<and> (\<forall>i < length (p_list st). \<forall>j < length (ml_search_dict env).
           velo (p_list st' ! i) ! j
             = fadd (fadd (fmul (round_double 0.5) (velo (p_list st ! i) ! j))
                          (fmul (fmul (round_double 0.8) (Finite (rnd_random env (rnd_calls st + 2 * i))))
                                (double_of_int
                                   (wrap64 (p_best_pos (p_list st ! i) ! j - pos (p_list st ! i) ! j)))))
                    (fmul (fmul (round_double 0.9) (Finite (rnd_random env (rnd_calls st + 2 * i + 1))))
                          (double_of_int (wrap64 (gb ! j - pos (p_list st ! i) ! j))))
         \<and> pos (p_list st' ! i) ! j
             = astype_int (invalid_cast env)
                 (fadd (double_of_int (pos (p_list st ! i) ! j)) (velo (p_list st' ! i) ! j)))"
proof -
  let ?d = "length (ml_search_dict env)"
  from move_particles_closed [OF assms(2), of "round_double 0.5" "round_double 0.8" "round_double 0.9" env]
  obtain st' where ret: "move_particles env st = Inr st'"
    and calls: "rnd_calls st' = rnd_calls st + 2 * length (p_list st)"
    and len: "length (p_list st') = length (p_list st)"
    and nth: "\<forall>i < length (p_list st). p_list st' ! i =
           move env ((p_list st ! i)\<lparr>velo :=
                  new_velocity (round_double 0.5) (round_double 0.8) (round_double 0.9)
                    (rnd_random env (rnd_calls st + 2 * i))
                    (rnd_random env (rnd_calls st + 2 * i + 1)) gb (p_list st ! i)\<rparr>)"
    unfolding move_particles_def by auto
  from assms have glen: "length gb = ?d" by (simp add: well_formed_def valid_pos_length)
  have "velo (p_list st' ! i) ! j
             = fadd (fadd (fmul (round_double 0.5) (velo (p_list st ! i) ! j))
                          (fmul (fmul (round_double 0.8) (Finite (rnd_random env (rnd_calls st + 2 * i))))
                                (double_of_int
                                   (wrap64 (p_best_pos (p_list st ! i) ! j - pos (p_list st ! i) ! j)))))
                    (fmul (fmul (round_double 0.9) (Finite (rnd_random env (rnd_calls st + 2 * i + 1))))
                          (double_of_int (wrap64 (gb ! j - pos (p_list st ! i) ! j))))
         \<and> pos (p_list st' ! i) ! j
             = astype_int (invalid_cast env)
                 (fadd (double_of_int (pos (p_list st ! i) ! j)) (velo (p_list st' ! i) ! j))"
    if i: "i < length (p_list st)" and j: "j < ?d" for i j
  proof -
    from assms(1) i have l: "length (pos (p_list st ! i)) = ?d" "length (velo (p_list st ! i)) = ?d"
      "length (p_best_pos (p_list st ! i)) = ?d"
      by (simp_all add: well_formed_def list_all_length valid_pos_length)
    from nth i have eq: "p_list st' ! i =
           move env ((p_list st ! i)\<lparr>velo :=
                  new_velocity (round_double 0.5) (round_double 0.8) (round_double 0.9)
                    (rnd_random env (rnd_calls st + 2 * i))
                    (rnd_random env (rnd_calls st + 2 * i + 1)) gb (p_list st ! i)\<rparr>)"
      by blast
    have v: "velo (p_list st' ! i)
        = new_velocity (round_double 0.5) (round_double 0.8) (round_double 0.9)
            (rnd_random env (rnd_calls st + 2 * i))
            (rnd_random env (rnd_calls st + 2 * i + 1)) gb (p_list st ! i)"
      unfolding eq by simp
    have 1: "velo (p_list st' ! i) ! j
             = fadd (fadd (fmul (round_double 0.5) (velo (p_list st ! i) ! j))
                          (fmul (fmul (round_double 0.8) (Finite (rnd_random env (rnd_calls st + 2 * i))))
                                (double_of_int
                                   (wrap64 (p_best_pos (p_list st ! i) ! j - pos (p_list st ! i) ! j)))))
                    (fmul (fmul (round_double 0.9) (Finite (rnd_random env (rnd_calls st + 2 * i + 1))))
                          (double_of_int (wrap64 (gb ! j - pos (p_list st ! i) ! j))))"
      unfolding v new_velocity_def using l glen j by simp
    have 2: "pos (p_list st' ! i) ! j
             = astype_int (invalid_cast env)
                 (fadd (double_of_int (pos (p_list st ! i) ! j)) (velo (p_list st' ! i) ! j))"
      unfolding v unfolding eq using l glen j by (simp add: nth_move)
    from 1 2 show ?thesis ..
  qed
  with ret calls len show ?thesis by blast
qed

theorem velocity_update_witness:
  "well_formed env_drop st_drop1 \<and> best_pos st_drop1 = Some [4]
   \<and> (\<exists>st'. move_particles env_drop st_drop1 = Inr st'
        \<and> rnd_calls st' = rnd_calls st_drop1 + 2 * length (p_list st_drop1)
        \<and> velo (p_list st' ! 0) ! 0 = Finite (1914029841632461 / 562949953421312)
        \<and> pos (p_list st' ! 0) ! 0 = 3)"
proof -
  have h1: "well_formed env_drop st_drop1" by code_simp
  have h2: "best_pos st_drop1 = Some [4]" by code_simp
  have l1: "0 < length (p_list st_drop1)" by code_simp
  have l2: "0 < length (ml_search_dict env_drop)" by code_simp
  have val: "fadd (fadd (fmul (round_double 0.5) (velo (p_list st_drop1 ! 0) ! 0))
                          (fmul (fmul (round_double 0.8) (Finite (rnd_random env_drop (rnd_calls st_drop1 + 2 * 0))))
                                (double_of_int
                                   (wrap64 (p_best_pos (p_list st_drop1 ! 0) ! 0 - pos (p_list st_drop1 ! 0) ! 0)))))
                    (fmul (fmul (round_double 0.9) (Finite (rnd_random env_drop (rnd_calls st_drop1 + 2 * 0 + 1))))
                          (double_of_int (wrap64 ([4] ! 0 - pos (p_list st_drop1 ! 0) ! 0))))
      = Finite (1914029841632461 / 562949953421312)"
    by code_simp
  have pv: "astype_int (invalid_cast env_drop)
      (fadd (double_of_int (pos (p_list st_drop1 ! 0) ! 0)) (Finite (1914029841632461 / 562949953421312))) = 3"
    by code_simp
  from velocity_update [OF h1 h2] obtain st' where
    a: "move_particles env_drop st_drop1 = Inr st'"
    and b: "rnd_calls st' = rnd_calls st_drop1 + 2 * length (p_list st_drop1)"
    and c: "\<forall>i < length (p_list st_drop1). \<forall>j < length (ml_search_dict env_drop).
           velo (p_list st' ! i) ! j
             = fadd (fadd (fmul (round_double 0.5) (velo (p_list st_drop1 ! i) ! j))
                          (fmul (fmul (round_double 0.8) (Finite (rnd_random env_drop (rnd_calls st_drop1 + 2 * i))))
                                (double_of_int
                                   (wrap64 (p_best_pos (p_list st_drop1 ! i) ! j - pos (p_list st_drop1 ! i) ! j)))))
                    (fmul (fmul (round_double 0.9) (Finite (rnd_random env_drop (rnd_calls st_drop1 + 2 * i + 1))))
                          (double_of_int (wrap64 ([4] ! j - pos (p_list st_drop1 ! i) ! j))))
         \<and> pos (p_list st' ! i) ! j
             = astype_int (invalid_cast env_drop)
                 (fadd (double_of_int (pos (p_list st_drop1 ! i) ! j)) (velo (p_list st' ! i) ! j))"
    by blast
  note inst = c [rule_format, OF l1 l2]
  from inst have d: "velo (p_list st' ! 0) ! 0 = Finite (1914029841632461 / 562949953421312)"
    by (simp only: val)
  from inst have "pos (p_list st' ! 0) ! 0 = 3"
    by (simp only: d pv)
  with a b d h1 h2 show ?thesis by blast
qed






text \<open>
  C5. Every Position handed to the decoder, and so to the evaluator, in a run that
  starts from a fresh optimizer has all its components in range and is its own clamped
  value: the Positions of the particles because \<open>_eval_particles\<close> clamps them, the
  final best Position because it is one of the random best positions of
  \<open>_init_particles\<close>. The arguments of the evaluator are the decodings of these
  Positions, call by call. Random positions are taken to be valid Positions.
\<close>

theorem decoded_positions_in_range:
  assumes "\<forall>k. valid_pos (ml_search_dict env) (get_random_position env k)"
  shows "(\<forall>p. Some p \<in> set (decoded (state_after (start_particle_swarm_optimization env init_optimizer)))
           \<longrightarrow> valid_pos (ml_search_dict env) p \<and> limit_pos (ml_search_dict env) p = p)
       \<and> map Inr (trained (state_after (start_particle_swarm_optimization env init_optimizer)))
           = map (pos_np2values_dict (ml_search_dict env))
               (decoded_positions (state_after (start_particle_swarm_optimization env init_optimizer)))"
proof -
  from assms have "valid_pos (ml_search_dict env) (get_random_position env 0)" by blast
  then have dims: "\<forall>d \<in> set (ml_search_dict env). snd d \<noteq> []" by (rule valid_pos_dims)
  have "decoded_ok env (state_after (start_particle_swarm_optimization env init_optimizer))"
    unfolding start_particle_swarm_optimization_def by (rule well_formed_run [OF dims assms])
  then show ?thesis by (auto simp: decoded_ok_def decoded_positions_def list_all_iff)
qed

theorem decoded_positions_in_range_witness:
  "(\<forall>k. valid_pos (ml_search_dict env_drop) (get_random_position env_drop k))
   \<and> decoded (state_after (start_particle_swarm_optimization env_drop init_optimizer))
       = [Some [0], Some [3], Some [4]]
   \<and> Some [3] \<in> set (decoded (state_after (start_particle_swarm_optimization env_drop init_optimizer)))
   \<and> valid_pos (ml_search_dict env_drop) [3]
   \<and> limit_pos (ml_search_dict env_drop) [3] = [3]"
proof -
  have h: "\<forall>k. valid_pos (ml_search_dict env_drop) (get_random_position env_drop k)"
    by (simp add: env_drop_def valid_pos_def)
  have c: "decoded (state_after (start_particle_swarm_optimization env_drop init_optimizer))
       = [Some [0], Some [3], Some [4]]"
    by code_simp
  then have m: "Some [3] \<in> set (decoded (state_after (start_particle_swarm_optimization env_drop init_optimizer)))"
    by simp
  from decoded_positions_in_range [OF h, THEN conjunct1, rule_format, OF m] h c m show ?thesis by blast
qed

text \<open>
  C6, as stated: after the move each stored position component is the integer part of
  the corresponding real-valued sum. It fails: for a particle at position 3 whose
  velocity is the greatest float below 1, the sum over the reals, \<open>4 - 2\<^sup>-\<^sup>5\<^sup>3\<close>, has the
  integer part 3, but the sum of the code is the float 4 and the stored position is 4.
\<close>

theorem move_rounds_before_truncating:
  "pos p_round = [3] \<and> velo p_round = [Finite (1 - 1 / 2 ^ 53)]
   \<and> trunc (real_of_int 3 + (1 - 1 / 2 ^ 53)) = 3
   \<and> fadd (double_of_int 3) (Finite (1 - 1 / 2 ^ 53)) = Finite 4
   \<and> pos (move env_drop p_round) = [4]"
  by code_simp

text \<open>
  C6, amended: the move converts the float sum of position and velocity to an integer
  by dropping its fraction (not by rounding and not by floor): wherever that sum is
  finite and its integer part fits 64 bits, the stored component is the floor of a sum
  that is not negative and the negated floor of the negated sum otherwise; it is never
  further from zero than the sum and less than 1 away from it. The floats nearest
  \<open>-0.7\<close> and \<open>2.9\<close> added to position 0 become 0 and 2, where floor gives \<open>-1\<close> and 2
  and rounding gives \<open>-1\<close> and 3.
\<close>

theorem move_truncates:
  assumes "j < length (pos p)" and "j < length (velo p)"
    and "fadd (double_of_int (pos p ! j)) (velo p ! j) = Finite x"
    and "- (2 ^ 63) \<le> trunc x" and "trunc x < 2 ^ 63"
  shows "(let z = pos (move env p) ! j in
            z = (if 0 \<le> x then \<lfloor>x\<rfloor> else - \<lfloor>- x\<rfloor>)
          \<and> \<bar>real_of_int z\<bar> \<le> \<bar>x\<bar>
          \<and> \<bar>x - real_of_int z\<bar> < 1)
       \<and> velo p_example = [Finite (- (3152519739159347 / 4503599627370496)),
                             Finite (6530219459687219 / 2251799813685248)]
       \<and> pos (move env_drop p_example) = [0, 2]
       \<and> map (\<lambda>v. case v of Finite y \<Rightarrow> \<lfloor>y\<rfloor> | _ \<Rightarrow> 0) (vadd (map double_of_int (pos p_example)) (velo p_example))
           = [- 1, 2]
       \<and> map (\<lambda>v. case v of Finite y \<Rightarrow> round y | _ \<Rightarrow> 0) (vadd (map double_of_int (pos p_example)) (velo p_example))
           = [- 1, 3]"
proof -
  have "pos (move env p) ! j = astype_int (invalid_cast env) (fadd (double_of_int (pos p ! j)) (velo p ! j))"
    using assms(1,2) by (rule nth_move)
  with assms(3-5) have z: "pos (move env p) ! j = trunc x" by (simp add: astype_int_def)
  have t: "trunc x = (if 0 \<le> x then \<lfloor>x\<rfloor> else - \<lfloor>- x\<rfloor>)"
    by (simp add: trunc_def ceiling_def)
  have ex: "velo p_example = [Finite (- (3152519739159347 / 4503599627370496)),
                             Finite (6530219459687219 / 2251799813685248)]
       \<and> pos (move env_drop p_example) = [0, 2]
       \<and> map (\<lambda>v. case v of Finite y \<Rightarrow> \<lfloor>y\<rfloor> | _ \<Rightarrow> 0) (vadd (map double_of_int (pos p_example)) (velo p_example))
           = [- 1, 2]
       \<and> map (\<lambda>v. case v of Finite y \<Rightarrow> round y | _ \<Rightarrow> 0) (vadd (map double_of_int (pos p_example)) (velo p_example))
           = [- 1, 3]"
    by code_simp
  from z t trunc_abs_le [of x] trunc_close [of x]
  have main: "(let z = pos (move env p) ! j in
            z = (if 0 \<le> x then \<lfloor>x\<rfloor> else - \<lfloor>- x\<rfloor>)
          \<and> \<bar>real_of_int z\<bar> \<le> \<bar>x\<bar>
          \<and> \<bar>x - real_of_int z\<bar> < 1)"
    by (simp add: Let_def)
  from main ex show ?thesis by (rule conjI)
qed

theorem move_truncates_witness:
  "(0::nat) < length (pos p_example) \<and> 0 < length (velo p_example)
   \<and> fadd (double_of_int (pos p_example ! 0)) (velo p_example ! 0)
       = Finite (- (3152519739159347 / 4503599627370496))
   \<and> - (2 ^ 63) \<le> trunc (- (3152519739159347 / 4503599627370496))
   \<and> trunc (- (3152519739159347 / 4503599627370496)) < 2 ^ 63
   \<and> pos (move env_drop p_example) ! 0 = - \<lfloor>- (- (3152519739159347 / 4503599627370496 :: real))\<rfloor>
   \<and> pos (move env_drop p_example) ! 0 = 0"
proof -
  have h1: "(0::nat) < length (pos p_example)" by code_simp
  have h2: "(0::nat) < length (velo p_example)" by code_simp
  have h3: "fadd (double_of_int (pos p_example ! 0)) (velo p_example ! 0)
       = Finite (- (3152519739159347 / 4503599627370496))"
    by code_simp
  have h4: "- (2 ^ 63) \<le> trunc (- (3152519739159347 / 4503599627370496))" by code_simp
  have h5: "trunc (- (3152519739159347 / 4503599627370496)) < 2 ^ 63" by code_simp
  have c: "pos (move env_drop p_example) ! 0 = 0" by code_simp
  from move_truncates [OF h1 h2 h3 h4 h5, of env_drop]
  have "pos (move env_drop p_example) ! 0 = - \<lfloor>- (- (3152519739159347 / 4503599627370496 :: real))\<rfloor>"
    by (simp add: Let_def)
  with h1 h2 h3 h4 h5 c show ?thesis by blast
qed

text \<open>
  C7, as stated: with \<open>c1 = c2 = 0\<close> every particle is at its initial Position after
  any number of steps. It fails where a component of a Position is no float: in a
  dimension of \<open>2\<^sup>5\<^sup>3 + 2\<close> values the particle at the last index, \<open>2\<^sup>5\<^sup>3 + 1\<close>, keeps
  the velocity 0 and is at index \<open>2\<^sup>5\<^sup>3\<close> after one step, because the move converts
  the position to a float before it adds the velocity.
\<close>

theorem inertia_drifts:
  "map pos (p_list (init_particles env_huge init_optimizer)) = [[2 ^ 53 + 1]]
   \<and> map velo (p_list (init_particles env_huge init_optimizer)) = [[Finite 0]]
   \<and> valid_pos (ml_search_dict env_huge) (get_random_position env_huge 0)
   \<and> valid_pos (ml_search_dict env_huge) (get_random_position env_huge 1)
   \<and> map pos (p_list (final_state (steps_with (Finite (1 / 2)) (Finite 0) (Finite 0) env_huge 1
        (init_particles env_huge init_optimizer)))) = [[2 ^ 53]]"
proof -
  have v: "valid_pos (ml_search_dict env_huge) [2 ^ 53 + 1]"
    by (simp add: valid_pos_def env_huge_def)
  have d: "double_of_int (2 ^ 53 + 1) = Finite (2 ^ 53)" by code_simp
  have w: "wrap64 0 = 0" by code_simp
  have c: "astype_int (invalid_cast env_huge) (Finite (2 ^ 53)) = 2 ^ 53"
    by (simp add: astype_int_def trunc_def)
  have l: "limit_pos (ml_search_dict env_huge) [2 ^ 53 + 1] = [2 ^ 53 + 1]"
    using v by (rule limit_pos_id)
  have v2: "valid_pos [(''x'', replicate 9007199254740994 ())] [9007199254740993]"
    by (simp add: valid_pos_def)
  have l2: "limit_pos [(''x'', replicate 9007199254740994 ())] [9007199254740993] = [9007199254740993]"
    using v2 by (rule limit_pos_id)
  have d2: "round_finite 9007199254740993 = 9007199254740992" by code_simp
  have s: "p_list (final_state (steps_with (Finite (1 / 2)) (Finite 0) (Finite 0) env_huge 1
        (init_particles env_huge init_optimizer)))
      = [\<lparr>pos = [2 ^ 53], velo = [Finite 0], p_best_pos = [2 ^ 53 + 1], p_best_score = Some 1,
        train_time = Some 0, sklearn_model = Some ()\<rparr>]"
    by (simp add: step_with_def eval_particles_def eval_particle_at_def
        pos_np2values_dict_def find_best_particle_def find_best_particle_at_def
        move_particles_with_def move_particle_at_def move_def smul_def smul_int_def vadd_def subtract_def
        Let_def w double_of_int_def env_huge_def init_particles_def init_optimizer_def
        new_particle_def v2 l2 d2 astype_int_def trunc_def)
  have g0: "get_random_position env_huge 0 = [2 ^ 53 + 1]"
    and g1: "get_random_position env_huge 1 = [2 ^ 53 + 1]"
    by (simp_all add: env_huge_def)
  have a: "map pos (p_list (init_particles env_huge init_optimizer)) = [[2 ^ 53 + 1]]"
    and b: "map velo (p_list (init_particles env_huge init_optimizer)) = [[Finite 0]]"
    by (simp_all add: huge_init)
  have e: "map pos (p_list (final_state (steps_with (Finite (1 / 2)) (Finite 0) (Finite 0) env_huge 1
        (init_particles env_huge init_optimizer)))) = [[2 ^ 53]]"
    unfolding s by simp
  from v have v0: "valid_pos (ml_search_dict env_huge) (get_random_position env_huge 0)"
    and v1: "valid_pos (ml_search_dict env_huge) (get_random_position env_huge 1)"
    unfolding g0 g1 by simp_all
  from a b v0 v1 e show ?thesis by (intro conjI)
qed

text \<open>
  C7, amended: where no dimension has more than \<open>2\<^sup>5\<^sup>3 + 1\<close> values, and with the
  coefficients \<open>c1\<close> and \<open>c2\<close> set to zero in place of the 0.8 and 0.9 of the source:
  every particle starts with the zero velocity; a move step that finds the best
  position set replaces every velocity \<open>v\<close> by the float product \<open>w * v\<close>; and after any
  number \<open>T\<close> of steps, whether the run got through them or raised on the way, every
  particle is at its initial Position.
\<close>

theorem pure_inertia:
  assumes "\<forall>k. valid_pos (ml_search_dict env) (get_random_position env k)"
    and "\<forall>d \<in> set (ml_search_dict env). length (snd d) \<le> 2 ^ 53 + 1"
  shows "list_all (\<lambda>p. velo p = replicate (length (ml_search_dict env)) (Finite 0))
           (p_list (init_particles env init_optimizer))
       \<and> map pos (p_list (final_state (steps_with (Finite w) (Finite 0) (Finite 0) env T
              (init_particles env init_optimizer))))
           = map pos (p_list (init_particles env init_optimizer))
       \<and> (well_formed env st \<and> best_pos st = Some gb \<longrightarrow>
            (\<exists>st'. move_particles_with (Finite w) (Finite 0) (Finite 0) env st = Inr st'
               \<and> map velo (p_list st') = map (\<lambda>p. smul (Finite w) (velo p)) (p_list st)))"
proof -
  let ?d = "length (ml_search_dict env)"
  let ?st0 = "init_particles env (init_optimizer :: ('a, 'b) optimizer)"
  have zero: "list_all (\<lambda>p. velo p = replicate ?d (Finite 0)) (p_list ?st0)"
    by (simp add: init_particles_def list_all_iff new_particle_def)
  have small: "list_all (\<lambda>p. list_all (\<lambda>i. \<bar>i\<bar> \<le> 2 ^ 53) (pos p)) (p_list ?st0)"
  proof -
    have rp: "list_all (\<lambda>i. \<bar>i\<bar> \<le> 2 ^ 53) (get_random_position env k)" for k
      using assms(1) valid_pos_small [OF _ assms(2)] by blast
    then show ?thesis
      by (simp add: init_particles_def new_particle_def list_all_iff)
  qed
  from well_formed_init_particles [OF assms(1)] have "well_formed env ?st0" by simp
  with zero have "well_formed env ?st0
      \<and> list_all (\<lambda>p. velo p = replicate ?d (Finite 0)) (p_list ?st0)"
    by simp
  from inertia_steps [OF this small, of w T]
  have still: "map pos (p_list (final_state (steps_with (Finite w) (Finite 0) (Finite 0) env T ?st0)))
      = map pos (p_list ?st0)"
    by simp
  have inert: "\<exists>st'. move_particles_with (Finite w) (Finite 0) (Finite 0) env st = Inr st'
               \<and> map velo (p_list st') = map (\<lambda>p. smul (Finite w) (velo p)) (p_list st)"
    if wfst: "well_formed env st" and gb: "best_pos st = Some gb"
  proof -
    from move_particles_closed [OF gb, of "Finite w" "Finite 0" "Finite 0" env]
    obtain st' where ret: "move_particles_with (Finite w) (Finite 0) (Finite 0) env st = Inr st'"
      and len: "length (p_list st') = length (p_list st)"
      and nth: "\<forall>i < length (p_list st). p_list st' ! i =
           move env ((p_list st ! i)\<lparr>velo :=
                  new_velocity (Finite w) (Finite 0) (Finite 0) (rnd_random env (rnd_calls st + 2 * i))
                    (rnd_random env (rnd_calls st + 2 * i + 1)) gb (p_list st ! i)\<rparr>)"
      by blast
    from wfst gb have glen: "length gb = ?d" by (simp add: well_formed_def valid_pos_length)
    have "map velo (p_list st') = map (\<lambda>p. smul (Finite w) (velo p)) (p_list st)"
    proof (rule nth_equalityI)
      show "length (map velo (p_list st')) = length (map (\<lambda>p. smul (Finite w) (velo p)) (p_list st))"
        using len by simp
    next
      fix i assume "i < length (map velo (p_list st'))"
      with len have i: "i < length (p_list st)" by simp
      with wfst have l: "length (velo (p_list st ! i)) = ?d" "length (p_best_pos (p_list st ! i)) = ?d"
          "length (pos (p_list st ! i)) = ?d"
        by (simp_all add: well_formed_def list_all_length valid_pos_length)
      have "new_velocity (Finite w) (Finite 0) (Finite 0) (rnd_random env (rnd_calls st + 2 * i))
                    (rnd_random env (rnd_calls st + 2 * i + 1)) gb (p_list st ! i)
             = smul (Finite w) (velo (p_list st ! i))"
        using l glen by (rule inertia_velo)
      with nth i have "velo (p_list st' ! i) = smul (Finite w) (velo (p_list st ! i))" by simp
      with i len show "map velo (p_list st') ! i = map (\<lambda>p. smul (Finite w) (velo p)) (p_list st) ! i"
        by simp
    qed
    with ret show ?thesis by blast
  qed
  from zero still inert show ?thesis by blast
qed

theorem pure_inertia_witness:
  "(\<forall>k. valid_pos (ml_search_dict env_drop) (get_random_position env_drop k))
   \<and> list_all (\<lambda>d. length (snd d) \<le> 2 ^ 53 + 1) (ml_search_dict env_drop)
   \<and> well_formed env_drop st_drop1 \<and> best_pos st_drop1 = Some [4]
   \<and> map pos (p_list (final_state (steps_with (Finite (1 / 2)) (Finite 0) (Finite 0) env_drop 2
          (init_particles env_drop init_optimizer))))
       = map pos (p_list (init_particles env_drop init_optimizer))
   \<and> (\<exists>st'. move_particles_with (Finite (1 / 2)) (Finite 0) (Finite 0) env_drop st_drop1 = Inr st'
          \<and> map velo (p_list st') = map (\<lambda>p. smul (Finite (1 / 2)) (velo p)) (p_list st_drop1))"
proof -
  have h: "\<forall>k. valid_pos (ml_search_dict env_drop) (get_random_position env_drop k)"
    by (simp add: env_drop_def valid_pos_def)
  have s: "\<forall>d \<in> set (ml_search_dict env_drop). length (snd d) \<le> 2 ^ 53 + 1"
    by (simp add: env_drop_def)
  have h1: "well_formed env_drop st_drop1" by code_simp
  have h2: "best_pos st_drop1 = Some [4]" by code_simp
  have s': "list_all (\<lambda>d. length (snd d) \<le> 2 ^ 53 + 1) (ml_search_dict env_drop)"
    by (simp add: env_drop_def)
  from pure_inertia [OF h s, of "1 / 2" 2 st_drop1 "[4]"] h s' h1 h2 show ?thesis by blast
qed

text \<open>
  C8. If no evaluation of a run that starts from a fresh optimizer returns a score above
  0, then at the end of the run, whether it returned or raised, the best position is
  still \<open>None\<close> and the best score still 0. In the example run one particle sits on the
  optimum, whose score is 0, and the optimum is not recorded.
\<close>

theorem best_stays_unset:
  assumes "list_all (\<lambda>h. fst (train_model env h) \<le> 0)
      (trained (state_after (start_particle_swarm_optimization env init_optimizer)))"
  shows "best_pos (state_after (start_particle_swarm_optimization env init_optimizer)) = None
       \<and> best_score (state_after (start_particle_swarm_optimization env init_optimizer)) = 0"
  using assms unfolding start_particle_swarm_optimization_def by (rule seen_nonpos_run)

theorem best_stays_unset_witness:
  "list_all (\<lambda>h. fst (train_model env_nonpos h) \<le> 0)
      (trained (state_after (start_particle_swarm_optimization env_nonpos init_optimizer)))
   \<and> best_pos (state_after (start_particle_swarm_optimization env_nonpos init_optimizer)) = None
   \<and> best_score (state_after (start_particle_swarm_optimization env_nonpos init_optimizer)) = 0
   \<and> map p_best_score (p_list (state_after (start_particle_swarm_optimization env_nonpos init_optimizer)))
       = [Some (- 4), Some 0]"
proof -
  have h: "list_all (\<lambda>h. fst (train_model env_nonpos h) \<le> 0)
      (trained (state_after (start_particle_swarm_optimization env_nonpos init_optimizer)))"
    by code_simp
  have c: "map p_best_score (p_list (state_after (start_particle_swarm_optimization env_nonpos init_optimizer)))
       = [Some (- 4), Some 0]"
    by code_simp
  from h best_stays_unset [OF h] c show ?thesis by blast
qed




section \<open>Properties of Hyperactive.search\<close>

text \<open>
  C9. With ray initialized, \<open>search\<close> on a fresh Hyperactive object runs the jobs
  remotely, assigns no optimizer, and raises \<open>AttributeError\<close> at the first read of the
  optimizer's results, leaving the object as it was. On any object the outcome for the
  object itself does not depend on what the remote jobs found, and the optimizer
  attribute is left as it was, while the local path assigns it.
\<close>

theorem ray_search_attribute_error:
  "search True jobs local_search remote_search \<lparr>self = hyperactive_init, remote_opts = []\<rparr>
     = Inl (AttributeError,
            \<lparr>self = hyperactive_init, remote_opts = map remote_search [0..<nat jobs]\<rparr>)
   \<and> self (final_state (search True jobs local_search remote_search w))
       = self (final_state (search True jobs local_search' remote_search' w))
   \<and> optimizer_attr (self (final_state (search True jobs local_search remote_search w)))
       = optimizer_attr (self w)
   \<and> optimizer_attr (self (final_state (search False jobs local_search remote_search w)))
       = Some local_search"
  by (simp add: search_def hyperactive_init_def Let_def split: option.splits)

end
